theory Spec2Isabelle
  imports Complex_Main "HOL-Library.Multiset"
begin

section \<open>Data model\<close>

text \<open>
  Identifiers are MongoDB ObjectIds, modelled as natural numbers. Dates are milliseconds
  since the epoch, as \<open>Date.now()\<close> returns them.
\<close>

type_synonym oid = nat
type_synonym date = int

text \<open>
  The text of an id in a URL or in a request body. \<open>findById\<close>, the queries and
  \<open>joinRequests.id\<close> cast the text to an ObjectId, and a hexadecimal digit casts the same
  in either letter case; the comparisons on \<open>toString()\<close> compare the lower-case
  hexadecimal form of a stored id with the text as it was sent. \<open>Spelling i k\<close> is a
  text that casts to the ObjectId \<open>i\<close>: \<open>k = 0\<close> is the form that \<open>toString()\<close> gives, every
  other \<open>k\<close> is another spelling of the same id (upper-case digits). \<open>NoId\<close> is a text
  that does not cast, on which \<open>findById\<close> throws.

  In the routes below \<open>group_id\<close> is the text of \<open>req.params.groupId\<close>. The user id of a
  request is read from the token the server issued, where it is in the
  \<open>toString()\<close> form; it is given as the ObjectId. So is an id that a route does nothing
  with but cast it.
\<close>

datatype id_text = Spelling oid nat | NoId

fun cast_oid :: "id_text \<Rightarrow> oid option" where
  "cast_oid (Spelling i k) = Some i"
| "cast_oid NoId = None"

definition oid_toString :: "oid \<Rightarrow> id_text" where
  "oid_toString i = Spelling i 0"

text \<open>models/Message.js: \<open>messageSchema\<close>.\<close>

record message =
  msg_id :: oid
  groupId :: oid
  senderId :: oid
  content :: string
  encrypted :: bool
  iv :: "string option"
  timestamp :: date
  edited :: bool
  editedAt :: "date option"
  deleted :: bool
  deletedAt :: "date option"

text \<open>
  models/Group.js: \<open>groupSchema\<close>. \<open>maxMembers\<close> is a \<open>Number\<close>, not necessarily a
  whole one.
\<close>

datatype group_type = Public | Private

datatype request_status = Pending | Approved | Declined

record join_request =
  jr_id :: oid
  jr_userId :: oid
  requestedAt :: date
  status :: request_status

record ban_record =
  ban_userId :: oid
  bannedAt :: date
  bannedBy :: oid

record group =
  name :: string
  gtype :: group_type
  owner :: oid
  members :: "oid list"
  maxMembers :: "rat option"
  joinRequests :: "join_request list"
  bannedUsers :: "ban_record list"
  createdAt :: date
  updatedAt :: date

text \<open>models/User.js: the membership part of \<open>userSchema\<close> (credentials are left out).\<close>

record banned_group =
  bg_groupId :: oid
  bg_bannedAt :: date

record left_group =
  lg_groupId :: oid
  leftAt :: date

record user =
  groups :: "oid list"
  bannedGroups :: "banned_group list"
  leftGroups :: "left_group list"

text \<open>
  The three collections. Groups and users are looked up by id only; messages are also
  queried, so their collection is a list in insertion order. \<open>next_oid\<close> is the source
  of new ObjectIds.
\<close>

record world =
  group_coll :: "oid \<rightharpoonup> group"
  user_coll :: "oid \<rightharpoonup> user"
  message_coll :: "message list"
  next_oid :: oid

text \<open>
  What a request reads from its environment: the clock, the outcome of its repository
  writes (\<open>write_ok e k\<close>: the \<open>k\<close>-th \<open>save\<close>/\<open>update\<close> of the request goes through;
  a failed write throws, and the route's \<open>catch\<close> answers 500), and the successive
  results of \<open>crypto.randomBytes(16)\<close>.
\<close>

record env =
  now :: date
  write_ok :: "nat \<Rightarrow> bool"
  randomBytes :: "nat \<Rightarrow> string"

text \<open>
  Node's AES-128-CBC under the process-wide key is not part of the repository; it is a
  parameter: \<open>aes_encrypt C iv plaintext\<close> is the hex ciphertext, and
  \<open>aes_decrypt C iv ciphertext\<close> is \<open>None\<close> where \<open>decipher.final\<close> throws.
\<close>

record crypto =
  aes_encrypt :: "string \<Rightarrow> string \<Rightarrow> string"
  aes_decrypt :: "string \<Rightarrow> string \<Rightarrow> string option"

definition round_trip :: "crypto \<Rightarrow> bool" where
  "round_trip C \<longleftrightarrow> (\<forall>v p. aes_decrypt C v (aes_encrypt C v p) = Some p)"

text \<open>The failures of the routes, one constructor per cause.\<close>

datatype failure =
    MissingRequiredFields | InvalidGroupType | InvalidMaxMembers
  | GroupNotFound | AlreadyMember | Banned | GroupFull | CooldownActive | RequestPending
  | NotMember | OwnerCannotLeave | NotOwner | SelfBan | UserNotFound
  | RequestNotFound | RequestAlreadyProcessed
  | EmptyContent | MessageNotFound | AlreadyDeleted | NotSender | EditWindowExpired
  | Forbidden | EmptyQuery
  | ServerError

section \<open>Strings\<close>

text \<open>
  \<open>String.prototype.trim\<close>, \<open>toLowerCase\<close> and \<open>includes\<close> on ASCII strings: the
  white space and the letters are the ASCII ones. (On other strings \<open>trim\<close> also strips
  the white space beyond ASCII, such as U+00A0, and \<open>toLowerCase\<close> also folds the
  letters beyond ASCII.)
\<close>

definition is_space :: "char \<Rightarrow> bool" where
  "is_space c \<longleftrightarrow> c \<in> {CHR '' '', CHR 0x09, CHR 0x0A, CHR 0x0B, CHR 0x0C, CHR 0x0D}"

definition trim :: "string \<Rightarrow> string" where
  "trim s = rev (dropWhile is_space (rev (dropWhile is_space s)))"

definition lower_char :: "char \<Rightarrow> char" where
  "lower_char c =
     (let n = (of_char c :: nat) in if 65 \<le> n \<and> n \<le> 90 then char_of (n + 32) else c)"

definition toLowerCase :: "string \<Rightarrow> string" where
  "toLowerCase s = map lower_char s"

definition str_includes :: "string \<Rightarrow> string \<Rightarrow> bool" where
  "str_includes s t \<longleftrightarrow> list_ex (\<lambda>i. take (length t) (drop i s) = t) [0 ..< Suc (length s)]"

text \<open>The guard \<open>!content || content.trim().length === 0\<close>.\<close>

definition blank :: "string \<Rightarrow> bool" where
  "blank s \<longleftrightarrow> s = [] \<or> length (trim s) = 0"

section \<open>models/Message.js\<close>

definition encryptContent :: "crypto \<Rightarrow> env \<Rightarrow> nat \<Rightarrow> string \<Rightarrow> string \<times> string" where
  "encryptContent C e k c = (let v = randomBytes e k in (aes_encrypt C v c, v))"

text \<open>\<open>None\<close>: the call throws (also when there is no iv to build the buffer from).\<close>

definition decryptContent :: "crypto \<Rightarrow> string \<Rightarrow> string option \<Rightarrow> string option" where
  "decryptContent C c vo = (case vo of None \<Rightarrow> None | Some v \<Rightarrow> aes_decrypt C v c)"

definition getDecryptedContent :: "crypto \<Rightarrow> message \<Rightarrow> string" where
  "getDecryptedContent C m =
     (if \<not> encrypted m then content m
      else case decryptContent C (content m) (iv m) of
             Some p \<Rightarrow> p
           | None \<Rightarrow> ''[Decryption failed]'')"

text \<open>
  The \<open>pre("save")\<close> hook. \<open>modified\<close> is \<open>this.isModified("content")\<close>; \<open>k\<close> is the
  index of the hook's \<open>randomBytes\<close> call among those of the request.
\<close>

definition message_pre_save :: "crypto \<Rightarrow> env \<Rightarrow> nat \<Rightarrow> bool \<Rightarrow> message \<Rightarrow> message" where
  "message_pre_save C e k modified m =
     (if \<not> modified \<or> \<not> encrypted m then m
      else (let (enc, v) = encryptContent C e k (content m)
            in m\<lparr>content := enc, iv := Some v\<rparr>))"

definition findMessage :: "message list \<Rightarrow> oid \<Rightarrow> message option" where
  "findMessage ms i = find (\<lambda>m. msg_id m = i) ms"

definition store_message :: "message \<Rightarrow> message list \<Rightarrow> message list" where
  "store_message m ms =
     (case findMessage ms (msg_id m) of
        None \<Rightarrow> ms @ [m]
      | Some _ \<Rightarrow> map (\<lambda>x. if msg_id x = msg_id m then m else x) ms)"

text \<open>
  \<open>message.save()\<close>: the hook runs, then the document is written. The content path
  counts as modified for a new document, and for a loaded one when its value differs
  from the stored one. \<open>None\<close>: the write threw.
\<close>

definition save_message ::
  "crypto \<Rightarrow> env \<Rightarrow> nat \<Rightarrow> nat \<Rightarrow> world \<Rightarrow> message \<Rightarrow> (message \<times> world) option" where
  "save_message C e k wk w m =
     (let modified = (case findMessage (message_coll w) (msg_id m) of
                        None \<Rightarrow> True
                      | Some old \<Rightarrow> content old \<noteq> content m);
          m' = message_pre_save C e k modified m
      in if write_ok e wk
         then Some (m', w\<lparr>message_coll := store_message m' (message_coll w)\<rparr>)
         else None)"

section \<open>models/Group.js and models/User.js\<close>

text \<open>
  \<open>isMember\<close> is called with the user id of the token and with ids read from the body;
  \<open>isBanned\<close> and \<open>hasPendingRequest\<close> with the user id of the token only.
\<close>

definition isMember :: "group \<Rightarrow> id_text \<Rightarrow> bool" where
  "isMember g userId \<longleftrightarrow> list_ex (\<lambda>memberId. oid_toString memberId = userId) (members g)"

definition isBanned :: "group \<Rightarrow> oid \<Rightarrow> bool" where
  "isBanned g u \<longleftrightarrow> list_ex (\<lambda>b. ban_userId b = u) (bannedUsers g)"

definition hasPendingRequest :: "group \<Rightarrow> oid \<Rightarrow> bool" where
  "hasPendingRequest g u \<longleftrightarrow>
     list_ex (\<lambda>r. jr_userId r = u \<and> status r = Pending) (joinRequests g)"

definition canRejoinPrivateGroup :: "env \<Rightarrow> user \<Rightarrow> id_text \<Rightarrow> bool" where
  "canRejoinPrivateGroup e u group_id =
     (case find (\<lambda>lg. oid_toString (lg_groupId lg) = group_id) (leftGroups u) of
        None \<Rightarrow> True
      | Some leftRecord \<Rightarrow>
          (let hoursSinceLeft = (of_int (now e - leftAt leftRecord) :: rat) / (1000 * 60 * 60)
           in hoursSinceLeft \<ge> 48))"

section \<open>routes/messages.js\<close>

text \<open>\<open>POST /:groupId\<close>. The answer carries the decrypted content of the saved message.\<close>

definition sendMessage ::
  "crypto \<Rightarrow> env \<Rightarrow> world \<Rightarrow> oid \<Rightarrow> oid \<Rightarrow> string \<Rightarrow> (failure + string) \<times> world" where
  "sendMessage C e w gid uid c =
     (if blank c then (Inl EmptyContent, w)
      else case group_coll w gid of
        None \<Rightarrow> (Inl GroupNotFound, w)
      | Some g \<Rightarrow>
          if \<not> isMember g (oid_toString uid) then (Inl NotMember, w)
          else (let m = \<lparr>msg_id = next_oid w, groupId = gid, senderId = uid,
                         content = trim c, encrypted = True, iv = None,
                         timestamp = now e, edited = False, editedAt = None,
                         deleted = False, deletedAt = None\<rparr>
                in case save_message C e 0 0 w m of
                     None \<Rightarrow> (Inl ServerError, w)
                   | Some (m', w') \<Rightarrow>
                       (Inr (getDecryptedContent C m'), w'\<lparr>next_oid := Suc (next_oid w)\<rparr>)))"

text \<open>\<open>PUT /:messageId\<close>.\<close>

definition minutesSinceSent :: "env \<Rightarrow> message \<Rightarrow> rat" where
  "minutesSinceSent e m = of_int (now e - timestamp m) / (1000 * 60)"

definition editMessage ::
  "crypto \<Rightarrow> env \<Rightarrow> world \<Rightarrow> oid \<Rightarrow> oid \<Rightarrow> string \<Rightarrow> (failure + string) \<times> world" where
  "editMessage C e w mid uid c =
     (if blank c then (Inl EmptyContent, w)
      else case findMessage (message_coll w) mid of
        None \<Rightarrow> (Inl MessageNotFound, w)
      | Some m \<Rightarrow>
          if deleted m then (Inl AlreadyDeleted, w)
          else if senderId m \<noteq> uid then (Inl NotSender, w)
          else if minutesSinceSent e m > 15 then (Inl EditWindowExpired, w)
          else (let (enc, v) = encryptContent C e 0 (trim c);
                    m1 = m\<lparr>content := enc, iv := Some v, edited := True,
                           editedAt := Some (now e)\<rparr>
                in case save_message C e 1 0 w m1 of
                     None \<Rightarrow> (Inl ServerError, w)
                   | Some (m2, w') \<Rightarrow> (Inr (getDecryptedContent C m2), w')))"

text \<open>\<open>DELETE /:messageId\<close>.\<close>

definition deleteMessage ::
  "crypto \<Rightarrow> env \<Rightarrow> world \<Rightarrow> oid \<Rightarrow> oid \<Rightarrow> (failure + unit) \<times> world" where
  "deleteMessage C e w mid uid =
     (case findMessage (message_coll w) mid of
        None \<Rightarrow> (Inl MessageNotFound, w)
      | Some m \<Rightarrow>
          if deleted m then (Inl AlreadyDeleted, w)
          else (let isOwner = (case group_coll w (groupId m) of
                                 None \<Rightarrow> False
                               | Some g \<Rightarrow> owner g = uid);
                    isSender = (senderId m = uid)
                in if \<not> isSender \<and> \<not> isOwner then (Inl Forbidden, w)
                   else (let m1 = m\<lparr>deleted := True, deletedAt := Some (now e)\<rparr>
                         in case save_message C e 0 0 w m1 of
                              None \<Rightarrow> (Inl ServerError, w)
                            | Some (m2, w') \<Rightarrow> (Inr (), w'))))"

text \<open>
  The repository's query \<open>Message.find(q).sort("-timestamp").limit(n)\<close>: the documents
  matching \<open>q\<close>, newest first, cut after \<open>n\<close>; the engine takes a limit of \<open>0\<close> as no
  limit. The engine is not part of the repository; its order among equal timestamps is
  taken to be the stored one.
\<close>

definition find_sorted_limit :: "(message \<Rightarrow> bool) \<Rightarrow> nat \<Rightarrow> message list \<Rightarrow> message list" where
  "find_sorted_limit q n ms =
     (let found = sort_key (\<lambda>m. - timestamp m) (filter q ms)
      in if n = 0 then found else take n found)"

record message_view =
  v_id :: oid
  v_groupId :: oid
  v_sender :: oid
  v_content :: string
  v_timestamp :: date
  v_edited :: bool
  v_editedAt :: "date option"

definition view :: "crypto \<Rightarrow> message \<Rightarrow> message_view" where
  "view C msg = \<lparr>v_id = msg_id msg, v_groupId = groupId msg, v_sender = senderId msg,
                 v_content = getDecryptedContent C msg, v_timestamp = timestamp msg,
                 v_edited = edited msg, v_editedAt = editedAt msg\<rparr>"

text \<open>
  \<open>GET /:groupId\<close>. \<open>limit\<close> is \<open>parseInt\<close> of the query parameter when it is given,
  \<open>before\<close> and \<open>after\<close> are the parsed dates when the parameters are given. The
  answer is the pair of \<open>messages\<close> and \<open>hasMore\<close>.
\<close>

definition list_query :: "oid \<Rightarrow> date option \<Rightarrow> date option \<Rightarrow> message \<Rightarrow> bool" where
  "list_query gid before after m \<longleftrightarrow>
     groupId m = gid \<and> \<not> deleted m \<and>
     (case before of
        Some b \<Rightarrow> timestamp m < b
      | None \<Rightarrow> (case after of Some a \<Rightarrow> timestamp m > a | None \<Rightarrow> True))"

definition listMessages ::
  "crypto \<Rightarrow> world \<Rightarrow> oid \<Rightarrow> oid \<Rightarrow> nat option \<Rightarrow> date option \<Rightarrow> date option \<Rightarrow>
   failure + (message_view list \<times> bool)" where
  "listMessages C w gid uid limit before after =
     (let lmt = (case limit of None \<Rightarrow> 50 | Some n \<Rightarrow> n)
      in case group_coll w gid of
        None \<Rightarrow> Inl GroupNotFound
      | Some g \<Rightarrow>
          if \<not> isMember g (oid_toString uid) then Inl NotMember
          else (let messages = find_sorted_limit (list_query gid before after) lmt (message_coll w);
                    decryptedMessages = map (view C) messages
                in Inr (rev decryptedMessages, length messages = lmt)))"

text \<open>\<open>GET /:groupId/search\<close>.\<close>

record search_result =
  r_id :: oid
  r_groupId :: oid
  r_sender :: oid
  r_content :: string
  r_timestamp :: date
  r_edited :: bool

definition hit :: "message \<Rightarrow> string \<Rightarrow> search_result" where
  "hit msg decryptedContent =
     \<lparr>r_id = msg_id msg, r_groupId = groupId msg, r_sender = senderId msg,
      r_content = decryptedContent, r_timestamp = timestamp msg, r_edited = edited msg\<rparr>"

text \<open>The \<open>for (const msg of messages)\<close> loop with its \<open>break\<close>.\<close>

fun search_loop ::
  "crypto \<Rightarrow> string \<Rightarrow> nat \<Rightarrow> message list \<Rightarrow> search_result list \<Rightarrow> search_result list" where
  "search_loop C searchTerm lmt [] searchResults = searchResults"
| "search_loop C searchTerm lmt (msg # rest) searchResults =
     (let decryptedContent = getDecryptedContent C msg;
          searchResults' =
            (if str_includes (toLowerCase decryptedContent) searchTerm
             then searchResults @ [hit msg decryptedContent]
             else searchResults)
      in if length searchResults' \<ge> lmt then searchResults'
         else search_loop C searchTerm lmt rest searchResults')"

definition searchMessages ::
  "crypto \<Rightarrow> world \<Rightarrow> oid \<Rightarrow> oid \<Rightarrow> string \<Rightarrow> nat option \<Rightarrow> failure + search_result list" where
  "searchMessages C w gid uid q limit =
     (let lmt = (case limit of None \<Rightarrow> 20 | Some n \<Rightarrow> n)
      in if blank q then Inl EmptyQuery
         else case group_coll w gid of
           None \<Rightarrow> Inl GroupNotFound
         | Some g \<Rightarrow>
             if \<not> isMember g (oid_toString uid) then Inl NotMember
             else (let messages = find_sorted_limit (\<lambda>m. groupId m = gid \<and> \<not> deleted m) 500
                                     (message_coll w)
                   in Inr (search_loop C (toLowerCase q) lmt messages [])))"

section \<open>routes/groups.js\<close>

text \<open>
  \<open>group.save()\<close>: the \<open>pre("save")\<close> hook stamps \<open>updatedAt\<close>, then the document is
  written. \<open>user.save()\<close> and \<open>User.findByIdAndUpdate(id, {$push: {groups: gid}})\<close>
  (which does nothing when no such user exists). \<open>None\<close>: the write threw.
\<close>

definition save_group :: "env \<Rightarrow> nat \<Rightarrow> world \<Rightarrow> oid \<Rightarrow> group \<Rightarrow> world option" where
  "save_group e wk w gid g =
     (if write_ok e wk
      then Some (w\<lparr>group_coll := (group_coll w)(gid \<mapsto> g\<lparr>updatedAt := now e\<rparr>)\<rparr>)
      else None)"

definition save_user :: "env \<Rightarrow> nat \<Rightarrow> world \<Rightarrow> oid \<Rightarrow> user \<Rightarrow> world option" where
  "save_user e wk w uid u =
     (if write_ok e wk then Some (w\<lparr>user_coll := (user_coll w)(uid \<mapsto> u)\<rparr>) else None)"

definition push_user_group :: "env \<Rightarrow> nat \<Rightarrow> world \<Rightarrow> oid \<Rightarrow> oid \<Rightarrow> world option" where
  "push_user_group e wk w uid gid =
     (if write_ok e wk
      then Some (case user_coll w uid of
                   None \<Rightarrow> w
                 | Some u \<Rightarrow> w\<lparr>user_coll := (user_coll w)(uid \<mapsto> u\<lparr>groups := groups u @ [gid]\<rparr>)\<rparr>)
      else None)"

text \<open>The schema validators that run when a new group is saved.\<close>

definition group_valid :: "group \<Rightarrow> bool" where
  "group_valid g \<longleftrightarrow>
     name g \<noteq> [] \<and> length (name g) \<le> 100 \<and>
     (case maxMembers g of None \<Rightarrow> True | Some m \<Rightarrow> m \<ge> 2)"

text \<open>The guard \<open>group.maxMembers && group.members.length >= group.maxMembers\<close>.\<close>

definition group_full :: "group \<Rightarrow> bool" where
  "group_full g \<longleftrightarrow>
     (case maxMembers g of
        None \<Rightarrow> False
      | Some m \<Rightarrow> m \<noteq> 0 \<and> of_nat (length (members g)) \<ge> m)"

text \<open>
  \<open>POST /\<close>. \<open>maxMembers\<close> is the number in the body, when there is one: the route
  documents it as \<open>type: integer\<close> and takes any number.
\<close>

definition createGroup ::
  "env \<Rightarrow> world \<Rightarrow> oid \<Rightarrow> string \<Rightarrow> string \<Rightarrow> rat option \<Rightarrow> (failure + oid) \<times> world" where
  "createGroup e w uid nm ty maxM =
     (if nm = [] \<or> ty = [] then (Inl MissingRequiredFields, w)
      else if ty \<noteq> ''public'' \<and> ty \<noteq> ''private'' then (Inl InvalidGroupType, w)
      else if (case maxM of None \<Rightarrow> False | Some m \<Rightarrow> m \<noteq> 0 \<and> m < 2)
      then (Inl InvalidMaxMembers, w)
      else (let gid = next_oid w;
                g = \<lparr>name = trim nm,
                     gtype = (if ty = ''public'' then Public else Private),
                     owner = uid, members = [uid],
                     maxMembers = (case maxM of
                                     None \<Rightarrow> None
                                   | Some m \<Rightarrow> if m \<noteq> 0 then Some m else None),
                     joinRequests = [], bannedUsers = [],
                     createdAt = now e, updatedAt = now e\<rparr>
            in if \<not> group_valid g then (Inl ServerError, w)
               else case save_group e 0 w gid g of
                 None \<Rightarrow> (Inl ServerError, w)
               | Some w0 \<Rightarrow>
                   (let w1 = w0\<lparr>next_oid := Suc gid\<rparr>
                    in case push_user_group e 1 w1 uid gid of
                         None \<Rightarrow> (Inl ServerError, w1)
                       | Some w2 \<Rightarrow> (Inr gid, w2))))"

text \<open>
  \<open>POST /:groupId/join\<close>. The group id of the URL is cast by \<open>findById\<close> and by the save
  of \<open>user.groups\<close>, and compared as text by \<open>canRejoinPrivateGroup\<close>. A missing user
  document makes \<open>user.groups\<close> throw.
\<close>

definition joinGroup :: "env \<Rightarrow> world \<Rightarrow> id_text \<Rightarrow> oid \<Rightarrow> (failure + unit) \<times> world" where
  "joinGroup e w group_id uid =
     (case cast_oid group_id of
        None \<Rightarrow> (Inl ServerError, w)
      | Some gid \<Rightarrow>
          (case group_coll w gid of
             None \<Rightarrow> (Inl GroupNotFound, w)
           | Some g \<Rightarrow>
               if isMember g (oid_toString uid) then (Inl AlreadyMember, w)
               else if isBanned g uid then (Inl Banned, w)
               else if group_full g then (Inl GroupFull, w)
               else if gtype g = Public then
                 (case save_group e 0 w gid (g\<lparr>members := members g @ [uid]\<rparr>) of
                    None \<Rightarrow> (Inl ServerError, w)
                  | Some w1 \<Rightarrow>
                      (case user_coll w uid of
                         None \<Rightarrow> (Inl ServerError, w1)
                       | Some u \<Rightarrow>
                           (case save_user e 1 w1 uid (u\<lparr>groups := groups u @ [gid]\<rparr>) of
                              None \<Rightarrow> (Inl ServerError, w1)
                            | Some w2 \<Rightarrow> (Inr (), w2))))
               else
                 (case user_coll w uid of
                    None \<Rightarrow> (Inl ServerError, w)
                  | Some u \<Rightarrow>
                      if \<not> canRejoinPrivateGroup e u group_id then (Inl CooldownActive, w)
                      else if hasPendingRequest g uid then (Inl RequestPending, w)
                      else (let r = \<lparr>jr_id = next_oid w, jr_userId = uid,
                                      requestedAt = now e, status = Pending\<rparr>
                            in case save_group e 0 w gid
                                    (g\<lparr>joinRequests := joinRequests g @ [r]\<rparr>) of
                                 None \<Rightarrow> (Inl ServerError, w)
                               | Some w1 \<Rightarrow> (Inr (), w1\<lparr>next_oid := Suc (next_oid w)\<rparr>)))))"

text \<open>\<open>Array.prototype.findIndex\<close>, with \<open>None\<close> for \<open>-1\<close>.\<close>

fun findIndex :: "('a \<Rightarrow> bool) \<Rightarrow> 'a list \<Rightarrow> nat option" where
  "findIndex P [] = None"
| "findIndex P (x # xs) = (if P x then Some 0 else map_option Suc (findIndex P xs))"

text \<open>
  The cooldown bookkeeping of \<open>POST /:groupId/leave\<close>: the record is looked for with the
  text of the URL; the one that is pushed when none is found stores the ObjectId \<open>gid\<close>
  that the text casts to.
\<close>

definition record_leave :: "env \<Rightarrow> id_text \<Rightarrow> oid \<Rightarrow> left_group list \<Rightarrow> left_group list" where
  "record_leave e group_id gid lgs =
     (case findIndex (\<lambda>lg. oid_toString (lg_groupId lg) = group_id) lgs of
        Some existingRecord \<Rightarrow> lgs[existingRecord := (lgs ! existingRecord)\<lparr>leftAt := now e\<rparr>]
      | None \<Rightarrow> lgs @ [\<lparr>lg_groupId = gid, leftAt = now e\<rparr>])"

text \<open>
  \<open>POST /:groupId/leave\<close>. The filter of \<open>user.groups\<close> compares with the text of the
  URL as well.
\<close>

definition leaveGroup :: "env \<Rightarrow> world \<Rightarrow> id_text \<Rightarrow> oid \<Rightarrow> (failure + unit) \<times> world" where
  "leaveGroup e w group_id uid =
     (case cast_oid group_id of
        None \<Rightarrow> (Inl ServerError, w)
      | Some gid \<Rightarrow>
          (case group_coll w gid of
             None \<Rightarrow> (Inl GroupNotFound, w)
           | Some g \<Rightarrow>
               if \<not> isMember g (oid_toString uid) then (Inl NotMember, w)
               else if owner g = uid then (Inl OwnerCannotLeave, w)
               else
                 (case save_group e 0 w gid
                         (g\<lparr>members := filter (\<lambda>m. m \<noteq> uid) (members g)\<rparr>) of
                    None \<Rightarrow> (Inl ServerError, w)
                  | Some w1 \<Rightarrow>
                      (case user_coll w uid of
                         None \<Rightarrow> (Inl ServerError, w1)
                       | Some u \<Rightarrow>
                           (let u1 = u\<lparr>groups :=
                                       filter (\<lambda>x. oid_toString x \<noteq> group_id) (groups u)\<rparr>;
                                u2 = (if gtype g = Private
                                      then u1\<lparr>leftGroups :=
                                               record_leave e group_id gid (leftGroups u1)\<rparr>
                                      else u1)
                            in case save_user e 1 w1 uid u2 of
                                 None \<Rightarrow> (Inl ServerError, w1)
                               | Some w2 \<Rightarrow> (Inr (), w2))))))"

text \<open>
  \<open>POST /:groupId/transfer\<close>. \<open>newOwnerId\<close> is the text of the body: \<open>isMember\<close> compares
  it as text, and the save casts it.
\<close>

definition transferOwnership ::
  "env \<Rightarrow> world \<Rightarrow> oid \<Rightarrow> oid \<Rightarrow> id_text \<Rightarrow> (failure + unit) \<times> world" where
  "transferOwnership e w gid uid newOwnerId =
     (case group_coll w gid of
        None \<Rightarrow> (Inl GroupNotFound, w)
      | Some g \<Rightarrow>
          if owner g \<noteq> uid then (Inl NotOwner, w)
          else if \<not> isMember g newOwnerId then (Inl NotMember, w)
          else
            (case cast_oid newOwnerId of
               None \<Rightarrow> (Inl ServerError, w)
             | Some newOwner \<Rightarrow>
                 (case save_group e 0 w gid (g\<lparr>owner := newOwner\<rparr>) of
                    None \<Rightarrow> (Inl ServerError, w)
                  | Some w1 \<Rightarrow> (Inr (), w1))))"

text \<open>
  \<open>POST /:groupId/banish\<close>. Both texts are cast by \<open>findById\<close> and by the saves, and
  compared as text by the guards and the filters.
\<close>

definition banishUser ::
  "env \<Rightarrow> world \<Rightarrow> id_text \<Rightarrow> oid \<Rightarrow> id_text \<Rightarrow> (failure + unit) \<times> world" where
  "banishUser e w group_id uid targetUserId =
     (case cast_oid group_id of
        None \<Rightarrow> (Inl ServerError, w)
      | Some gid \<Rightarrow>
          (case cast_oid targetUserId of
             None \<Rightarrow> (Inl ServerError, w)
           | Some tid \<Rightarrow>
               (case group_coll w gid of
                  None \<Rightarrow> (Inl GroupNotFound, w)
                | Some g \<Rightarrow>
                    (case user_coll w tid of
                       None \<Rightarrow> (Inl UserNotFound, w)
                     | Some targetUser \<Rightarrow>
                         if owner g \<noteq> uid then (Inl NotOwner, w)
                         else if targetUserId = oid_toString uid then (Inl SelfBan, w)
                         else if \<not> isMember g targetUserId then (Inl NotMember, w)
                         else
                           (case save_group e 0 w gid
                                   (g\<lparr>members :=
                                        filter (\<lambda>m. oid_toString m \<noteq> targetUserId) (members g),
                                      bannedUsers := bannedUsers g @
                                        [\<lparr>ban_userId = tid, bannedAt = now e,
                                          bannedBy = uid\<rparr>]\<rparr>) of
                              None \<Rightarrow> (Inl ServerError, w)
                            | Some w1 \<Rightarrow>
                                (case save_user e 1 w1 tid
                                   (targetUser\<lparr>groups :=
                                        filter (\<lambda>x. oid_toString x \<noteq> group_id)
                                          (groups targetUser),
                                      bannedGroups := bannedGroups targetUser @
                                        [\<lparr>bg_groupId = gid, bg_bannedAt = now e\<rparr>]\<rparr>) of
                                   None \<Rightarrow> (Inl ServerError, w1)
                                 | Some w2 \<Rightarrow> (Inr (), w2)))))))"

text \<open>
  \<open>POST /:groupId/approve\<close> and \<open>POST /:groupId/decline\<close>. \<open>joinRequests.id(requestId)\<close>
  is the first subdocument with that id; the route changes it in place.
\<close>

definition approveJoinRequest ::
  "env \<Rightarrow> world \<Rightarrow> oid \<Rightarrow> oid \<Rightarrow> oid \<Rightarrow> (failure + unit) \<times> world" where
  "approveJoinRequest e w gid uid requestId =
     (case group_coll w gid of
        None \<Rightarrow> (Inl GroupNotFound, w)
      | Some g \<Rightarrow>
          if owner g \<noteq> uid then (Inl NotOwner, w)
          else
            (case findIndex (\<lambda>r. jr_id r = requestId) (joinRequests g) of
               None \<Rightarrow> (Inl RequestNotFound, w)
             | Some i \<Rightarrow>
                 (let request = joinRequests g ! i
                  in if status request \<noteq> Pending then (Inl RequestAlreadyProcessed, w)
                     else if group_full g then (Inl GroupFull, w)
                     else
                       (case save_group e 0 w gid
                               (g\<lparr>joinRequests := (joinRequests g)[i := request\<lparr>status := Approved\<rparr>],
                                  members := members g @ [jr_userId request]\<rparr>) of
                          None \<Rightarrow> (Inl ServerError, w)
                        | Some w1 \<Rightarrow>
                            (case push_user_group e 1 w1 (jr_userId request) gid of
                               None \<Rightarrow> (Inl ServerError, w1)
                             | Some w2 \<Rightarrow> (Inr (), w2))))))"

definition declineJoinRequest ::
  "env \<Rightarrow> world \<Rightarrow> oid \<Rightarrow> oid \<Rightarrow> oid \<Rightarrow> (failure + unit) \<times> world" where
  "declineJoinRequest e w gid uid requestId =
     (case group_coll w gid of
        None \<Rightarrow> (Inl GroupNotFound, w)
      | Some g \<Rightarrow>
          if owner g \<noteq> uid then (Inl NotOwner, w)
          else
            (case findIndex (\<lambda>r. jr_id r = requestId) (joinRequests g) of
               None \<Rightarrow> (Inl RequestNotFound, w)
             | Some i \<Rightarrow>
                 (let request = joinRequests g ! i
                  in if status request \<noteq> Pending then (Inl RequestAlreadyProcessed, w)
                     else
                       (case save_group e 0 w gid
                               (g\<lparr>joinRequests := (joinRequests g)[i := request\<lparr>status := Declined\<rparr>]\<rparr>) of
                          None \<Rightarrow> (Inl ServerError, w)
                        | Some w1 \<Rightarrow> (Inr (), w1)))))"

section \<open>Sequences of membership requests\<close>

datatype request =
    CreateGroup oid string string "rat option"
  | JoinGroup id_text oid
  | LeaveGroup id_text oid
  | TransferOwnership oid oid id_text
  | BanishUser id_text oid id_text
  | ApproveJoinRequest oid oid oid
  | DeclineJoinRequest oid oid oid

fun serve :: "env \<Rightarrow> world \<Rightarrow> request \<Rightarrow> (failure + unit) \<times> world" where
  "serve e w (CreateGroup uid nm ty maxM) =
     (case createGroup e w uid nm ty maxM of (r, w') \<Rightarrow> (map_sum id (\<lambda>_. ()) r, w'))"
| "serve e w (JoinGroup group_id uid) = joinGroup e w group_id uid"
| "serve e w (LeaveGroup group_id uid) = leaveGroup e w group_id uid"
| "serve e w (TransferOwnership gid uid newOwnerId) = transferOwnership e w gid uid newOwnerId"
| "serve e w (BanishUser group_id uid targetUserId) = banishUser e w group_id uid targetUserId"
| "serve e w (ApproveJoinRequest gid uid requestId) = approveJoinRequest e w gid uid requestId"
| "serve e w (DeclineJoinRequest gid uid requestId) = declineJoinRequest e w gid uid requestId"

text \<open>The requests are served one after the other, each with its own environment.\<close>

fun run :: "world \<Rightarrow> (env \<times> request) list \<Rightarrow> world" where
  "run w [] = w"
| "run w ((e, r) # rs) = run (snd (serve e w r)) rs"

section \<open>Concrete instances\<close>

text \<open>
  A stand-in cipher for the concrete instances below: the ciphertext is the iv followed
  by the plaintext, and decryption throws when the ciphertext does not start with the iv.
\<close>

definition toy_crypto :: crypto where
  "toy_crypto =
     \<lparr>aes_encrypt = (\<lambda>v p. v @ p),
      aes_decrypt = (\<lambda>v c. if take (length v) c = v then Some (drop (length v) c) else None)\<rparr>"

text \<open>An environment at time \<open>t\<close> whose writes go through, and one whose second write fails.\<close>

definition env_at :: "date \<Rightarrow> env" where
  "env_at t = \<lparr>now = t, write_ok = (\<lambda>k. True),
               randomBytes = (\<lambda>k. if k = 0 then ''a1'' else ''b2'')\<rparr>"

definition env_second_write_fails :: "date \<Rightarrow> env" where
  "env_second_write_fails t = \<lparr>now = t, write_ok = (\<lambda>k. k = 0),
               randomBytes = (\<lambda>k. if k = 0 then ''a1'' else ''b2'')\<rparr>"

text \<open>Three registered users, no group, no message.\<close>

definition new_user :: user where
  "new_user = \<lparr>groups = [], bannedGroups = [], leftGroups = []\<rparr>"

definition world0 :: world where
  "world0 = \<lparr>group_coll = Map.empty,
             user_coll = [1 \<mapsto> new_user, 2 \<mapsto> new_user, 3 \<mapsto> new_user],
             message_coll = [], next_oid = 10\<rparr>"

text \<open>
  A public group \<open>Chat\<close> owned by user 1, holding one message that user 1 sent at
  time 1000 with the text \<open>hello\<close>.
\<close>

definition chat :: group where
  "chat = \<lparr>name = ''Chat'', gtype = Public, owner = 1, members = [1], maxMembers = None,
            joinRequests = [], bannedUsers = [], createdAt = 0, updatedAt = 0\<rparr>"

definition msg0 :: message where
  "msg0 = \<lparr>msg_id = 11, groupId = 10, senderId = 1, content = ''a1hello'', encrypted = True,
            iv = Some ''a1'', timestamp = 1000, edited = False, editedAt = None,
            deleted = False, deletedAt = None\<rparr>"

definition world_chat :: world where
  "world_chat = \<lparr>group_coll = [10 \<mapsto> chat],
                 user_coll = [1 \<mapsto> new_user\<lparr>groups := [10]\<rparr>, 2 \<mapsto> new_user, 3 \<mapsto> new_user],
                 message_coll = [msg0], next_oid = 12\<rparr>"

text \<open>
  The private group \<open>Alpha\<close> with room for two: user 1 creates it, user 2 asks to join,
  user 1 approves.
\<close>

definition scenario_alpha :: "(env \<times> request) list" where
  "scenario_alpha =
     [(env_at 0, CreateGroup 1 ''Alpha'' ''private'' (Some 2)),
      (env_at 5, JoinGroup (Spelling 10 0) 2),
      (env_at 6, ApproveJoinRequest 10 1 11)]"

definition alpha :: group where
  "alpha = \<lparr>name = ''Alpha'', gtype = Private, owner = 1, members = [1, 2],
             maxMembers = Some 2,
             joinRequests = [\<lparr>jr_id = 11, jr_userId = 2, requestedAt = 5, status = Approved\<rparr>],
             bannedUsers = [], createdAt = 0, updatedAt = 6\<rparr>"

definition world_alpha :: world where
  "world_alpha = \<lparr>group_coll = [10 \<mapsto> alpha],
                  user_coll = [1 \<mapsto> new_user\<lparr>groups := [10]\<rparr>,
                               2 \<mapsto> new_user\<lparr>groups := [10]\<rparr>, 3 \<mapsto> new_user],
                  message_coll = [], next_oid = 12\<rparr>"

text \<open>\<open>Alpha\<close> before the approval, and after user 2 has left it at time 100.\<close>

definition alpha_pending :: group where
  "alpha_pending = alpha\<lparr>members := [1], updatedAt := 5,
     joinRequests := [\<lparr>jr_id = 11, jr_userId = 2, requestedAt = 5, status = Pending\<rparr>]\<rparr>"

definition world_pending :: world where
  "world_pending = \<lparr>group_coll = [10 \<mapsto> alpha_pending],
                    user_coll = [1 \<mapsto> new_user\<lparr>groups := [10]\<rparr>, 2 \<mapsto> new_user, 3 \<mapsto> new_user],
                    message_coll = [], next_oid = 12\<rparr>"

definition alpha_left :: group where
  "alpha_left = alpha\<lparr>members := [1], updatedAt := 100\<rparr>"

definition world_left :: world where
  "world_left = \<lparr>group_coll = [10 \<mapsto> alpha_left],
                 user_coll = [1 \<mapsto> new_user\<lparr>groups := [10]\<rparr>,
                              2 \<mapsto> new_user\<lparr>leftGroups := [\<lparr>lg_groupId = 10, leftAt = 100\<rparr>]\<rparr>,
                              3 \<mapsto> new_user],
                 message_coll = [], next_oid = 12\<rparr>"

text \<open>
  \<open>Chat\<close> with four messages, stored in the order 1000, 3000, 2000, 4000 of their
  timestamps; the last one is deleted.
\<close>

definition msg1 :: message where
  "msg1 = msg0\<lparr>msg_id := 12, content := ''a1World'', timestamp := 3000\<rparr>"

definition msg2 :: message where
  "msg2 = msg0\<lparr>msg_id := 13, content := ''a1HELLO again'', timestamp := 2000\<rparr>"

definition msg3 :: message where
  "msg3 = msg0\<lparr>msg_id := 14, content := ''a1hello world'', timestamp := 4000,
               deleted := True, deletedAt := Some 4500\<rparr>"

definition world_msgs :: world where
  "world_msgs = world_chat\<lparr>message_coll := [msg0, msg1, msg2, msg3], next_oid := 15\<rparr>"

text \<open>
  \<open>Alpha\<close> after user 2, who left at time 100, has been admitted again; and a public
  group created with \<open>maxMembers = 2.5\<close> that users 2 and 3 then join.
\<close>

definition world_back :: world where
  "world_back = \<lparr>group_coll = [10 \<mapsto> alpha],
                 user_coll = [1 \<mapsto> new_user\<lparr>groups := [10]\<rparr>,
                              2 \<mapsto> new_user\<lparr>groups := [10],
                                             leftGroups := [\<lparr>lg_groupId = 10, leftAt = 100\<rparr>]\<rparr>,
                              3 \<mapsto> new_user],
                 message_coll = [], next_oid = 13\<rparr>"

definition scenario_fraction :: "(env \<times> request) list" where
  "scenario_fraction =
     [(env_at 0, CreateGroup 1 ''Beta'' ''public'' (Some (5 / 2))),
      (env_at 1, JoinGroup (Spelling 10 0) 2),
      (env_at 2, JoinGroup (Spelling 10 0) 3)]"

section \<open>Invariants of the group collection\<close>

text \<open>
  What every stored group satisfies: the owner is a member, and a \<open>maxMembers\<close> that is set
  is not zero and is more than the number of members less one.
\<close>

definition group_inv :: "group \<Rightarrow> bool" where
  "group_inv g \<longleftrightarrow>
     owner g \<in> set (members g) \<and>
     (case maxMembers g of
        None \<Rightarrow> True
      | Some m \<Rightarrow> m \<noteq> 0 \<and> of_nat (length (members g)) < m + 1)"

definition groups_ok :: "world \<Rightarrow> bool" where
  "groups_ok w \<longleftrightarrow> (\<forall>gid g. group_coll w gid = Some g \<longrightarrow> group_inv g)"

text \<open>Request \<open>r\<close> sits at position \<open>i\<close> of a stored group whose id has been issued.\<close>

definition has_request :: "world \<Rightarrow> oid \<Rightarrow> nat \<Rightarrow> join_request \<Rightarrow> bool" where
  "has_request w gid i r \<longleftrightarrow>
     gid < next_oid w \<and>
     (\<exists>g. group_coll w gid = Some g \<and> i < length (joinRequests g) \<and> joinRequests g ! i = r)"

text \<open>
  No user holds two \<open>leftGroups\<close> records for one group; and a leave request whose group id
  is in the \<open>toString()\<close> form (or does not cast).
\<close>

definition ledger_ok :: "world \<Rightarrow> bool" where
  "ledger_ok w \<longleftrightarrow>
     (\<forall>uid u. user_coll w uid = Some u \<longrightarrow> distinct (map lg_groupId (leftGroups u)))"

fun lower_case_leave :: "request \<Rightarrow> bool" where
  "lower_case_leave (LeaveGroup group_id uid) =
     (case group_id of Spelling i k \<Rightarrow> k = 0 | NoId \<Rightarrow> True)"
| "lower_case_leave r = True"

section \<open>Identifiers\<close>

lemma oid_toString_eq: "oid_toString a = oid_toString b \<longleftrightarrow> a = b"
  by (simp add: oid_toString_def)

lemma cast_toString: "cast_oid (oid_toString i) = Some i"
  by (simp add: oid_toString_def)

lemma isMember_token: "isMember g (oid_toString u) \<longleftrightarrow> u \<in> set (members g)"
  by (auto simp: isMember_def list_ex_iff oid_toString_eq)

lemma isMember_cast: "isMember g t \<Longrightarrow> cast_oid t = Some n \<Longrightarrow> n \<in> set (members g)"
  by (auto simp: isMember_def list_ex_iff oid_toString_def)

section \<open>Stored messages\<close>

lemma findMessage_id: "findMessage ms i = Some m \<Longrightarrow> msg_id m = i"
  unfolding findMessage_def by (induction ms) (auto split: if_splits)

lemma findMessage_replace:
  "findMessage ms i = Some m \<Longrightarrow> msg_id m' = i \<Longrightarrow>
   findMessage (map (\<lambda>x. if msg_id x = i then m' else x) ms) i = Some m'"
  unfolding findMessage_def by (induction ms) (auto split: if_splits)

lemma findMessage_replace_other:
  "j \<noteq> i \<Longrightarrow> msg_id m' = i \<Longrightarrow>
   findMessage (map (\<lambda>x. if msg_id x = i then m' else x) ms) j = findMessage ms j"
  unfolding findMessage_def by (induction ms) (auto split: if_splits)

lemma store_message_found:
  "findMessage ms i = Some m \<Longrightarrow> msg_id m' = i \<Longrightarrow>
   findMessage (store_message m' ms) j = (if j = i then Some m' else findMessage ms j)"
  by (simp add: store_message_def findMessage_replace findMessage_replace_other)

section \<open>Deleting a message\<close>

text \<open>
  C9. Let \<open>m\<close> be a stored message that is not deleted. \<open>DELETE /:messageId\<close> succeeds
  exactly when the requester is the sender or the owner of the message's group (and the
  write goes through). After a success the stored message is \<open>m\<close> with \<open>deleted = true\<close>
  and \<open>deletedAt = now\<close> and every other field as before (content, iv, sender, timestamp,
  edited flags); the other messages, the groups and the users are unchanged. A failed
  request changes nothing.
\<close>

theorem deleteMessage_frame:
  assumes found: "findMessage (message_coll w) mid = Some m"
    and live: "\<not> deleted m"
    and res: "deleteMessage C e w mid uid = (r, w')"
  shows "(r = Inr () \<longleftrightarrow>
            (senderId m = uid \<or> map_option owner (group_coll w (groupId m)) = Some uid) \<and> write_ok e 0) \<and>
         (r = Inr () \<longrightarrow>
            findMessage (message_coll w') mid = Some (m\<lparr>deleted := True, deletedAt := Some (now e)\<rparr>) \<and>
            (\<forall>j. j \<noteq> mid \<longrightarrow> findMessage (message_coll w') j = findMessage (message_coll w) j) \<and>
            group_coll w' = group_coll w \<and> user_coll w' = user_coll w) \<and>
         (r \<noteq> Inr () \<longrightarrow> w' = w)"
  using assms findMessage_id[OF found]
  by (auto simp: deleteMessage_def save_message_def message_pre_save_def store_message_found Let_def
      split: option.splits if_splits)

theorem deleteMessage_frame_witness:
  "findMessage (message_coll world_chat) 11 = Some msg0 \<and> \<not> deleted msg0 \<and>
   deleteMessage toy_crypto (env_at 2000) world_chat 11 1 =
     (Inr (), world_chat\<lparr>message_coll := [msg0\<lparr>deleted := True, deletedAt := Some 2000\<rparr>]\<rparr>) \<and>
   findMessage [msg0\<lparr>deleted := True, deletedAt := Some 2000\<rparr>] 11 =
     Some (msg0\<lparr>deleted := True, deletedAt := Some 2000\<rparr>) \<and>
   content (msg0\<lparr>deleted := True, deletedAt := Some 2000\<rparr>) = ''a1hello''"
proof -
  have h1: "findMessage (message_coll world_chat) 11 = Some msg0"
    by (simp add: world_chat_def msg0_def findMessage_def)
  have h2: "\<not> deleted msg0"
    by (simp add: msg0_def)
  have h3: "deleteMessage toy_crypto (env_at 2000) world_chat 11 1 =
     (Inr (), world_chat\<lparr>message_coll := [msg0\<lparr>deleted := True, deletedAt := Some 2000\<rparr>]\<rparr>)"
    by (simp add: deleteMessage_def world_chat_def msg0_def chat_def env_at_def findMessage_def
        save_message_def message_pre_save_def store_message_def Let_def)
  have h4: "content (msg0\<lparr>deleted := True, deletedAt := Some 2000\<rparr>) = ''a1hello''"
    by (simp add: msg0_def)
  from deleteMessage_frame[OF h1 h2 h3]
  have "findMessage [msg0\<lparr>deleted := True, deletedAt := Some 2000\<rparr>] 11 =
     Some (msg0\<lparr>deleted := True, deletedAt := Some 2000\<rparr>)"
    by (simp add: env_at_def)
  with h1 h2 h3 h4 show ?thesis by simp
qed

section \<open>Editing a message\<close>

lemma minutes_gt: "minutesSinceSent e m > 15 \<longleftrightarrow> now e - timestamp m > 15 * 60 * 1000"
proof -
  have "(15::rat) < of_int (now e - timestamp m) / (1000 * 60) \<longleftrightarrow>
        (of_int (900000::int) :: rat) < of_int (now e - timestamp m)"
    by (simp add: pos_less_divide_eq)
  also have "\<dots> \<longleftrightarrow> 900000 < now e - timestamp m"
    by (rule of_int_less_iff)
  finally show ?thesis by (simp add: minutesSinceSent_def)
qed

lemma editMessage_result:
  assumes found: "findMessage (message_coll w) mid = Some m"
    and live: "\<not> deleted m" and sender: "senderId m = uid" and content: "\<not> blank c"
  shows "editMessage C e w mid uid c =
     (if now e - timestamp m > 15 * 60 * 1000 then (Inl EditWindowExpired, w)
      else case save_message C e 1 0 w
             (m\<lparr>content := aes_encrypt C (randomBytes e 0) (trim c), iv := Some (randomBytes e 0),
                edited := True, editedAt := Some (now e)\<rparr>) of
             None \<Rightarrow> (Inl ServerError, w)
           | Some (m2, w') \<Rightarrow> (Inr (getDecryptedContent C m2), w'))"
  using assms by (simp add: editMessage_def minutes_gt encryptContent_def Let_def)

lemma save_message_edit:
  assumes found: "findMessage (message_coll w) mid = Some m" and id: "msg_id m1 = mid"
    and ok: "write_ok e wk"
  shows "\<exists>m2. save_message C e k wk w m1 =
            Some (m2, w\<lparr>message_coll := store_message m2 (message_coll w)\<rparr>) \<and>
          m2 = message_pre_save C e k (content m \<noteq> content m1) m1"
  using assms by (simp add: save_message_def Let_def)

lemma pre_save_frame:
  "msg_id (message_pre_save C e k b m) = msg_id m \<and>
   timestamp (message_pre_save C e k b m) = timestamp m \<and>
   deleted (message_pre_save C e k b m) = deleted m \<and>
   senderId (message_pre_save C e k b m) = senderId m"
  by (simp add: message_pre_save_def encryptContent_def Let_def)

text \<open>
  C5. Let \<open>m\<close> be a stored message that is not deleted, edited by its sender with
  content that is not blank. \<open>PUT /:messageId\<close> answers with the time-limit failure
  exactly when \<open>now\<close> is more than 15 minutes (900000 ms) after the message's
  \<open>timestamp\<close>. Within the window, when the write goes through, the edit succeeds and
  the stored message keeps its \<open>timestamp\<close>, so that every later edit is again judged
  against the original send time.
\<close>

theorem editMessage_window:
  assumes found: "findMessage (message_coll w) mid = Some m"
    and live: "\<not> deleted m" and sender: "senderId m = uid" and content: "\<not> blank c"
  shows "(fst (editMessage C e w mid uid c) = Inl EditWindowExpired \<longleftrightarrow>
            now e - timestamp m > 15 * 60 * 1000) \<and>
         (now e - timestamp m \<le> 15 * 60 * 1000 \<and> write_ok e 0 \<longrightarrow>
            (\<exists>p w' m'. editMessage C e w mid uid c = (Inr p, w') \<and>
               findMessage (message_coll w') mid = Some m' \<and>
               timestamp m' = timestamp m \<and> \<not> deleted m' \<and> senderId m' = uid \<and>
               (\<forall>e2 c2. \<not> blank c2 \<longrightarrow>
                  (fst (editMessage C e2 w' mid uid c2) = Inl EditWindowExpired \<longleftrightarrow>
                     now e2 - timestamp m > 15 * 60 * 1000))))"
proof (intro conjI impI)
  show "fst (editMessage C e w mid uid c) = Inl EditWindowExpired \<longleftrightarrow>
          now e - timestamp m > 15 * 60 * 1000"
    by (simp add: editMessage_result[OF assms] save_message_def Let_def split: option.splits)
next
  assume a: "now e - timestamp m \<le> 15 * 60 * 1000 \<and> write_ok e 0"
  let ?m1 = "m\<lparr>content := aes_encrypt C (randomBytes e 0) (trim c), iv := Some (randomBytes e 0),
                edited := True, editedAt := Some (now e)\<rparr>"
  have id: "msg_id m = mid" by (rule findMessage_id[OF found])
  then have id1: "msg_id ?m1 = mid" by simp
  from save_message_edit[OF found id1, of e 0 C 1] a
  obtain m2 where s: "save_message C e 1 0 w ?m1 =
        Some (m2, w\<lparr>message_coll := store_message m2 (message_coll w)\<rparr>)"
    and m2: "m2 = message_pre_save C e 1 (content m \<noteq> content ?m1) ?m1" by blast
  let ?w' = "w\<lparr>message_coll := store_message m2 (message_coll w)\<rparr>"
  have r: "editMessage C e w mid uid c = (Inr (getDecryptedContent C m2), ?w')"
    using a s by (simp add: editMessage_result[OF assms])
  have fr: "msg_id m2 = mid" "timestamp m2 = timestamp m" "\<not> deleted m2" "senderId m2 = uid"
    using m2 pre_save_frame[of C e 1 "content m \<noteq> content ?m1" ?m1] id live sender by simp_all
  have f': "findMessage (message_coll ?w') mid = Some m2"
    using store_message_found[OF found fr(1), of mid] by simp
  have later: "\<forall>e2 c2. \<not> blank c2 \<longrightarrow>
       (fst (editMessage C e2 ?w' mid uid c2) = Inl EditWindowExpired \<longleftrightarrow>
          now e2 - timestamp m > 15 * 60 * 1000)"
    using fr by (simp add: editMessage_result[OF f' fr(3) fr(4)] save_message_def Let_def
        split: option.splits)
  show "\<exists>p w' m'. editMessage C e w mid uid c = (Inr p, w') \<and>
               findMessage (message_coll w') mid = Some m' \<and>
               timestamp m' = timestamp m \<and> \<not> deleted m' \<and> senderId m' = uid \<and>
               (\<forall>e2 c2. \<not> blank c2 \<longrightarrow>
                  (fst (editMessage C e2 w' mid uid c2) = Inl EditWindowExpired \<longleftrightarrow>
                     now e2 - timestamp m > 15 * 60 * 1000))"
    using r f' fr later by blast
qed

theorem editMessage_window_witness:
  "findMessage (message_coll world_chat) 11 = Some msg0 \<and> \<not> deleted msg0 \<and>
   senderId msg0 = 1 \<and> \<not> blank ''bye'' \<and> timestamp msg0 = 1000 \<and>
   fst (editMessage toy_crypto (env_at (1000 + 899000)) world_chat 11 1 ''bye'') \<noteq>
     Inl EditWindowExpired \<and>
   fst (editMessage toy_crypto (env_at (1000 + 901000)) world_chat 11 1 ''bye'') =
     Inl EditWindowExpired"
proof -
  have h1: "findMessage (message_coll world_chat) 11 = Some msg0"
    by (simp add: world_chat_def msg0_def findMessage_def)
  have h2: "\<not> deleted msg0" and h3: "senderId msg0 = 1" and h5: "timestamp msg0 = 1000"
    by (simp_all add: msg0_def)
  have h4: "\<not> blank ''bye''"
    by (simp add: blank_def trim_def is_space_def)
  have early: "fst (editMessage toy_crypto (env_at (1000 + 899000)) world_chat 11 1 ''bye'') \<noteq>
     Inl EditWindowExpired"
    using editMessage_window[OF h1 h2 h3 h4, of toy_crypto "env_at (1000 + 899000)"] h5
    by (simp add: env_at_def)
  have late: "fst (editMessage toy_crypto (env_at (1000 + 901000)) world_chat 11 1 ''bye'') =
     Inl EditWindowExpired"
    using editMessage_window[OF h1 h2 h3 h4, of toy_crypto "env_at (1000 + 901000)"] h5
    by (simp add: env_at_def)
  from h1 h2 h3 h4 h5 early late show ?thesis by simp
qed

text \<open>
  C1. Let the cipher decrypt what it encrypts. When \<open>PUT /:messageId\<close> succeeds on an
  encrypted message, the route encrypts the trimmed content under a first iv, and the
  \<open>pre("save")\<close> hook, finding the content modified, encrypts that ciphertext again
  under a second iv. The decrypted view of the stored message, which is also the content
  the route answers with, is therefore the first ciphertext and not the trimmed content.
\<close>

theorem editMessage_decrypted_view:
  assumes rt: "round_trip C"
    and found: "findMessage (message_coll w) mid = Some m"
    and live: "\<not> deleted m" and sender: "senderId m = uid" and content: "\<not> blank c"
    and window: "now e - timestamp m \<le> 15 * 60 * 1000" and ok: "write_ok e 0"
    and enc: "encrypted m"
    and changed: "aes_encrypt C (randomBytes e 0) (trim c) \<noteq> content m"
  shows "fst (editMessage C e w mid uid c) = Inr (aes_encrypt C (randomBytes e 0) (trim c)) \<and>
         map_option (getDecryptedContent C)
           (findMessage (message_coll (snd (editMessage C e w mid uid c))) mid) =
         Some (aes_encrypt C (randomBytes e 0) (trim c))"
proof -
  let ?x = "aes_encrypt C (randomBytes e 0) (trim c)"
  let ?m1 = "m\<lparr>content := ?x, iv := Some (randomBytes e 0),
                edited := True, editedAt := Some (now e)\<rparr>"
  let ?m2 = "?m1\<lparr>content := aes_encrypt C (randomBytes e 1) ?x, iv := Some (randomBytes e 1)\<rparr>"
  have id: "msg_id m = mid" by (rule findMessage_id[OF found])
  have s: "save_message C e 1 0 w ?m1 =
        Some (?m2, w\<lparr>message_coll := store_message ?m2 (message_coll w)\<rparr>)"
    using found id ok enc changed
    by (simp add: save_message_def message_pre_save_def encryptContent_def Let_def)
  have d: "getDecryptedContent C ?m2 = ?x"
    using rt enc by (simp add: getDecryptedContent_def decryptContent_def round_trip_def)
  have r: "editMessage C e w mid uid c =
      (Inr ?x, w\<lparr>message_coll := store_message ?m2 (message_coll w)\<rparr>)"
    using window s d by (simp add: editMessage_result[OF found live sender content])
  have "findMessage (store_message ?m2 (message_coll w)) mid = Some ?m2"
    using store_message_found[OF found, of ?m2 mid] id by simp
  then show ?thesis using r d by simp
qed

theorem editMessage_decrypted_view_witness:
  "round_trip toy_crypto \<and>
   findMessage (message_coll world_chat) 11 = Some msg0 \<and> \<not> deleted msg0 \<and>
   senderId msg0 = 1 \<and> \<not> blank ''bye'' \<and> encrypted msg0 \<and> trim ''bye'' = ''bye'' \<and>
   fst (editMessage toy_crypto (env_at 2000) world_chat 11 1 ''bye'') = Inr ''a1bye'' \<and>
   map_option (getDecryptedContent toy_crypto)
     (findMessage (message_coll (snd (editMessage toy_crypto (env_at 2000) world_chat 11 1 ''bye''))) 11)
     = Some ''a1bye''"
proof -
  have h0: "round_trip toy_crypto"
    by (simp add: round_trip_def toy_crypto_def)
  have h1: "findMessage (message_coll world_chat) 11 = Some msg0"
    by (simp add: world_chat_def msg0_def findMessage_def)
  have h2: "\<not> deleted msg0" and h3: "senderId msg0 = 1" and h7: "encrypted msg0"
    by (simp_all add: msg0_def)
  have h4: "\<not> blank ''bye''" and t: "trim ''bye'' = ''bye''"
    by (simp_all add: blank_def trim_def is_space_def)
  have h5: "now (env_at 2000) - timestamp msg0 \<le> 15 * 60 * 1000"
    by (simp add: env_at_def msg0_def)
  have h6: "write_ok (env_at 2000) 0"
    by (simp add: env_at_def)
  have h8: "aes_encrypt toy_crypto (randomBytes (env_at 2000) 0) (trim ''bye'') \<noteq> content msg0"
    by (simp add: t toy_crypto_def env_at_def msg0_def)
  have x: "aes_encrypt toy_crypto (randomBytes (env_at 2000) 0) (trim ''bye'') = ''a1bye''"
    by (simp add: t toy_crypto_def env_at_def)
  from editMessage_decrypted_view[OF h0 h1 h2 h3 h4 h5 h6 h7 h8] x h0 h1 h2 h3 h4 h7 t
  show ?thesis by simp
qed


section \<open>The group invariants\<close>

lemma filter_len_lt:
  fixes m :: rat
  shows "of_nat (length xs) < m \<Longrightarrow> of_nat (length (filter P xs)) < m"
proof -
  assume a: "of_nat (length xs) < m"
  have "(of_nat (length (filter P xs)) :: rat) \<le> of_nat (length xs)"
    by simp
  with a show ?thesis by linarith
qed

lemma createGroup_ok: "groups_ok w \<Longrightarrow> groups_ok (snd (createGroup e w uid nm ty maxM))"
  by (auto simp: createGroup_def save_group_def push_user_group_def Let_def groups_ok_def
      group_inv_def group_valid_def split: option.splits if_splits)

lemma joinGroup_ok: "groups_ok w \<Longrightarrow> groups_ok (snd (joinGroup e w group_id uid))"
  by (auto simp: joinGroup_def save_group_def save_user_def Let_def groups_ok_def
      group_inv_def group_full_def split: option.splits if_splits)

lemma leaveGroup_ok: "groups_ok w \<Longrightarrow> groups_ok (snd (leaveGroup e w group_id uid))"
  by (auto simp: leaveGroup_def save_group_def save_user_def Let_def groups_ok_def
      group_inv_def intro: filter_len_lt split: option.splits if_splits)

lemma transferOwnership_ok: "groups_ok w \<Longrightarrow> groups_ok (snd (transferOwnership e w gid uid n))"
  by (auto simp: transferOwnership_def save_group_def Let_def groups_ok_def
      group_inv_def dest: isMember_cast split: option.splits if_splits)

lemma banishUser_ok: "groups_ok w \<Longrightarrow> groups_ok (snd (banishUser e w group_id uid t))"
  by (auto simp: banishUser_def save_group_def save_user_def Let_def groups_ok_def
      group_inv_def intro: filter_len_lt split: option.splits if_splits)

lemma approveJoinRequest_ok: "groups_ok w \<Longrightarrow> groups_ok (snd (approveJoinRequest e w gid uid r))"
  by (auto simp: approveJoinRequest_def save_group_def push_user_group_def Let_def groups_ok_def
      group_inv_def group_full_def split: option.splits if_splits)

lemma declineJoinRequest_ok: "groups_ok w \<Longrightarrow> groups_ok (snd (declineJoinRequest e w gid uid r))"
  by (auto simp: declineJoinRequest_def save_group_def Let_def groups_ok_def
      group_inv_def split: option.splits if_splits)

lemma serve_ok:
  assumes "groups_ok w"
  shows "groups_ok (snd (serve e w rq))"
proof (cases rq)
  case (CreateGroup uid nm ty maxM)
  then show ?thesis
    using createGroup_ok[OF assms, of e uid nm ty maxM] by (simp add: split_beta)
qed (simp_all add: assms joinGroup_ok leaveGroup_ok transferOwnership_ok banishUser_ok
      approveJoinRequest_ok declineJoinRequest_ok)

lemma run_ok: "groups_ok w \<Longrightarrow> groups_ok (run w rs)"
  by (induction rs arbitrary: w) (auto simp: serve_ok)

lemma whole_bound:
  fixes m :: rat
  assumes "m \<in> \<int>" and "of_nat n < m + 1"
  shows "of_nat n \<le> m"
proof -
  from assms(1) obtain k :: int where k: "m = of_int k"
    by (rule Ints_cases)
  have "(of_int (int n) :: rat) < of_int (k + 1)"
    using assms(2) k by simp
  then have "int n < k + 1"
    by (simp only: of_int_less_iff)
  then have "int n \<le> k" by simp
  then have "(of_int (int n) :: rat) \<le> of_int k"
    by (simp only: of_int_le_iff)
  then show ?thesis using k by simp
qed

text \<open>
  What holds of every group after any sequence of membership requests, served one after
  the other from a repository without groups: the owner is among the members, and the
  number of members is less than \<open>maxMembers + 1\<close>, hence at most \<open>maxMembers\<close> when that is
  a whole number.
\<close>

lemma membership_bounds:
  assumes "group_coll w0 = Map.empty" and "group_coll (run w0 rs) gid = Some g"
  shows "owner g \<in> set (members g) \<and>
         (\<forall>m. maxMembers g = Some m \<longrightarrow>
            of_nat (length (members g)) < m + 1 \<and>
            (m \<in> \<int> \<longrightarrow> of_nat (length (members g)) \<le> m))"
proof -
  have "groups_ok w0" using assms(1) by (simp add: groups_ok_def)
  then have "groups_ok (run w0 rs)" by (rule run_ok)
  then have "group_inv g" using assms(2) by (auto simp: groups_ok_def)
  then show ?thesis by (auto simp: group_inv_def whole_bound split: option.splits)
qed

lemmas route_defs = createGroup_def joinGroup_def leaveGroup_def approveJoinRequest_def
  save_group_def save_user_def push_user_group_def group_valid_def trim_def is_space_def
  isMember_def isBanned_def group_full_def canRejoinPrivateGroup_def hasPendingRequest_def
  record_leave_def oid_toString_def Let_def

text \<open>
  C2. The owner of every group is among its members, but the number of members is not
  always at most \<open>maxMembers\<close>. The create route takes \<open>maxMembers = 2.5\<close> (it is a number,
  not zero, and not less than 2, and the schema asks for a \<open>Number\<close> of at least 2). With
  two members the guard \<open>members.length >= maxMembers\<close> of the join route is false, so a
  third user joins: three members in a group whose \<open>maxMembers\<close> is 2.5.
\<close>

theorem membership_cap_exceeded:
  "map_option (\<lambda>g. (owner g, members g, maxMembers g))
     (group_coll (run world0 scenario_fraction) 10) = Some (1, [1, 2, 3], Some (5 / 2)) \<and>
   \<not> (of_nat (length [1, 2, 3 :: oid]) \<le> (5 / 2 :: rat))"
  by (simp add: world0_def scenario_fraction_def env_at_def new_user_def route_defs)

section \<open>Joining a group\<close>

text \<open>
  C3, as the routes have it. Let a user who is neither a member nor banned join a public
  group with room. The route writes the group and then the user, and nothing undoes a
  write: when both writes go through, the user id is appended to the members and the
  group id to the user's groups; when the group write fails, nothing is changed; when
  the user write fails, the request fails and the members already hold the user id.
\<close>

theorem joinGroup_public_writes:
  assumes t: "cast_oid group_id = Some gid"
    and g: "group_coll w gid = Some g" and pub: "gtype g = Public"
    and nm: "\<not> isMember g (oid_toString uid)" and nb: "\<not> isBanned g uid" and room: "\<not> group_full g"
    and u: "user_coll w uid = Some u"
  shows "joinGroup e w group_id uid =
     (if write_ok e 0
      then if write_ok e 1
           then (Inr (), w\<lparr>group_coll := (group_coll w)(gid \<mapsto> g\<lparr>members := members g @ [uid], updatedAt := now e\<rparr>),
                          user_coll := (user_coll w)(uid \<mapsto> u\<lparr>groups := groups u @ [gid]\<rparr>)\<rparr>)
           else (Inl ServerError,
                 w\<lparr>group_coll := (group_coll w)(gid \<mapsto> g\<lparr>members := members g @ [uid], updatedAt := now e\<rparr>)\<rparr>)
      else (Inl ServerError, w))"
  using assms by (simp add: joinGroup_def save_group_def save_user_def)

theorem joinGroup_public_writes_witness:
  "cast_oid (Spelling 10 0) = Some 10 \<and>
   group_coll world_chat 10 = Some chat \<and> gtype chat = Public \<and>
   \<not> isMember chat (oid_toString 2) \<and>
   \<not> isBanned chat 2 \<and> \<not> group_full chat \<and> user_coll world_chat 2 = Some new_user \<and>
   joinGroup (env_at 7) world_chat (Spelling 10 0) 2 =
     (Inr (), world_chat\<lparr>group_coll := [10 \<mapsto> chat\<lparr>members := [1, 2], updatedAt := 7\<rparr>],
                         user_coll := [1 \<mapsto> new_user\<lparr>groups := [10]\<rparr>,
                                       2 \<mapsto> new_user\<lparr>groups := [10]\<rparr>, 3 \<mapsto> new_user]\<rparr>)"
proof -
  have h0: "cast_oid (Spelling 10 0) = Some 10" by simp
  have h1: "group_coll world_chat 10 = Some chat" by (simp add: world_chat_def)
  have h2: "gtype chat = Public" by (simp add: chat_def)
  have h3: "\<not> isMember chat (oid_toString 2)" by (simp add: chat_def isMember_token)
  have h4: "\<not> isBanned chat 2" by (simp add: chat_def isBanned_def)
  have h5: "\<not> group_full chat" by (simp add: chat_def group_full_def)
  have h6: "user_coll world_chat 2 = Some new_user" by (simp add: world_chat_def)
  have "joinGroup (env_at 7) world_chat (Spelling 10 0) 2 =
     (Inr (), world_chat\<lparr>group_coll := [10 \<mapsto> chat\<lparr>members := [1, 2], updatedAt := 7\<rparr>],
                         user_coll := [1 \<mapsto> new_user\<lparr>groups := [10]\<rparr>,
                                       2 \<mapsto> new_user\<lparr>groups := [10]\<rparr>, 3 \<mapsto> new_user]\<rparr>)"
    using joinGroup_public_writes[OF h0 h1 h2 h3 h4 h5 h6, of "env_at 7"]
    by (simp add: env_at_def world_chat_def chat_def new_user_def fun_upd_twist)
  with h0 h1 h2 h3 h4 h5 h6 show ?thesis by simp
qed

text \<open>
  The join of user 2 to \<open>Chat\<close> with a failing user write: the request fails, the
  members have changed from \<open>[1]\<close> to \<open>[1, 2]\<close>, and the user's groups are still empty.
\<close>

theorem joinGroup_not_atomic:
  "fst (joinGroup (env_second_write_fails 7) world_chat (Spelling 10 0) 2) = Inl ServerError \<and>
   map_option members (group_coll world_chat 10) = Some [1] \<and>
   map_option members (group_coll (snd (joinGroup (env_second_write_fails 7) world_chat (Spelling 10 0) 2)) 10) = Some [1, 2] \<and>
   map_option groups (user_coll (snd (joinGroup (env_second_write_fails 7) world_chat (Spelling 10 0) 2)) 2) = Some []"
  by (simp add: joinGroup_def save_group_def save_user_def env_second_write_fails_def world_chat_def
      chat_def new_user_def isMember_def oid_toString_def isBanned_def group_full_def)

text \<open>
  C10. A private group whose member count has reached \<open>maxMembers\<close> answers a join
  request of a user who is neither a member nor banned with \<open>GroupFull\<close>, whatever the
  user's cooldown and pending requests are, and nothing is stored: no join request is
  appended.
\<close>

theorem joinGroup_private_full:
  assumes t: "cast_oid group_id = Some gid"
    and g: "group_coll w gid = Some g" and priv: "gtype g = Private"
    and cap: "maxMembers g = Some m" and valid: "2 \<le> m"
    and full: "m \<le> of_nat (length (members g))"
    and nm: "\<not> isMember g (oid_toString uid)" and nb: "\<not> isBanned g uid"
  shows "joinGroup e w group_id uid = (Inl GroupFull, w)"
  using assms by (simp add: joinGroup_def group_full_def)

theorem joinGroup_private_full_witness:
  "cast_oid (Spelling 10 0) = Some 10 \<and>
   group_coll world_alpha 10 = Some alpha \<and> gtype alpha = Private \<and> maxMembers alpha = Some 2 \<and>
   (2::rat) \<le> 2 \<and> (2::rat) \<le> of_nat (length (members alpha)) \<and>
   \<not> isMember alpha (oid_toString 3) \<and> \<not> isBanned alpha 3 \<and>
   joinGroup (env_at 9) world_alpha (Spelling 10 0) 3 = (Inl GroupFull, world_alpha) \<and>
   map_option joinRequests
     (group_coll (snd (joinGroup (env_at 9) world_alpha (Spelling 10 0) 3)) 10) =
     Some (joinRequests alpha)"
proof -
  have h1: "group_coll world_alpha 10 = Some alpha" by (simp add: world_alpha_def)
  have h2: "gtype alpha = Private" and h3: "maxMembers alpha = Some 2"
    and h5: "(2::rat) \<le> of_nat (length (members alpha))"
    by (simp_all add: alpha_def)
  have h0: "cast_oid (Spelling 10 0) = Some 10" by simp
  have h4: "(2::rat) \<le> 2" by simp
  have h6: "\<not> isMember alpha (oid_toString 3)" by (simp add: alpha_def isMember_token)
  have h7: "\<not> isBanned alpha 3" by (simp add: alpha_def isBanned_def)
  from joinGroup_private_full[OF h0 h1 h2 h3 h4 h5 h6 h7, of "env_at 9"] h0 h1 h2 h3 h5 h6 h7
  show ?thesis by simp
qed

section \<open>Join requests\<close>

lemma findIndex_Some: "findIndex P xs = Some j \<Longrightarrow> j < length xs \<and> P (xs ! j)"
  by (induction xs arbitrary: j) (auto split: if_splits)

lemma findIndex_None: "findIndex P xs = None \<longleftrightarrow> (\<forall>x\<in>set xs. \<not> P x)"
  by (induction xs) auto

lemma createGroup_keeps:
  "has_request w gid i r \<Longrightarrow> has_request (snd (createGroup e w uid nm ty maxM)) gid i r"
  by (auto simp: createGroup_def save_group_def push_user_group_def Let_def has_request_def
      split: option.splits if_splits)

lemma joinGroup_keeps:
  "has_request w gid i r \<Longrightarrow> has_request (snd (joinGroup e w group_id uid)) gid i r"
  by (auto simp: joinGroup_def save_group_def save_user_def Let_def has_request_def nth_append
      split: option.splits if_splits)

lemma leaveGroup_keeps:
  "has_request w gid i r \<Longrightarrow> has_request (snd (leaveGroup e w group_id uid)) gid i r"
  by (auto simp: leaveGroup_def save_group_def save_user_def Let_def has_request_def
      split: option.splits if_splits)

lemma transferOwnership_keeps:
  "has_request w gid i r \<Longrightarrow> has_request (snd (transferOwnership e w g uid n)) gid i r"
  by (auto simp: transferOwnership_def save_group_def Let_def has_request_def
      split: option.splits if_splits)

lemma banishUser_keeps:
  "has_request w gid i r \<Longrightarrow> has_request (snd (banishUser e w group_id uid t)) gid i r"
  by (auto simp: banishUser_def save_group_def save_user_def Let_def has_request_def
      split: option.splits if_splits)

lemma approveJoinRequest_keeps:
  "has_request w gid i r \<Longrightarrow> status r \<noteq> Pending \<Longrightarrow>
   has_request (snd (approveJoinRequest e w g uid rid)) gid i r"
  by (auto simp: approveJoinRequest_def save_group_def push_user_group_def Let_def has_request_def
      nth_list_update dest: findIndex_Some split: option.splits if_splits)

lemma declineJoinRequest_keeps:
  "has_request w gid i r \<Longrightarrow> status r \<noteq> Pending \<Longrightarrow>
   has_request (snd (declineJoinRequest e w g uid rid)) gid i r"
  by (auto simp: declineJoinRequest_def save_group_def Let_def has_request_def
      nth_list_update dest: findIndex_Some split: option.splits if_splits)

lemma serve_keeps:
  assumes "has_request w gid i r" and "status r \<noteq> Pending"
  shows "has_request (snd (serve e w rq)) gid i r"
proof (cases rq)
  case (CreateGroup uid nm ty maxM)
  then show ?thesis
    using createGroup_keeps[OF assms(1), of e uid nm ty maxM] by (simp add: split_beta)
qed (simp_all add: assms joinGroup_keeps leaveGroup_keeps transferOwnership_keeps
      banishUser_keeps approveJoinRequest_keeps declineJoinRequest_keeps)

lemma run_keeps:
  "has_request w gid i r \<Longrightarrow> status r \<noteq> Pending \<Longrightarrow> has_request (run w rs) gid i r"
  by (induction rs arbitrary: w) (auto simp: serve_keeps)

lemma approve_result:
  assumes g: "group_coll w gid = Some g" and own: "owner g = uid"
    and j: "findIndex (\<lambda>r. jr_id r = rid) (joinRequests g) = Some j"
  shows "approveJoinRequest e w gid uid rid =
     (if status (joinRequests g ! j) \<noteq> Pending then (Inl RequestAlreadyProcessed, w)
      else if group_full g then (Inl GroupFull, w)
      else if \<not> write_ok e 0 then (Inl ServerError, w)
      else (if write_ok e 1 then Inr () else Inl ServerError,
            w\<lparr>group_coll := (group_coll w)(gid \<mapsto>
                 g\<lparr>joinRequests := (joinRequests g)[j := (joinRequests g ! j)\<lparr>status := Approved\<rparr>],
                    members := members g @ [jr_userId (joinRequests g ! j)],
                    updatedAt := now e\<rparr>),
               user_coll := (if write_ok e 1
                  then (case user_coll w (jr_userId (joinRequests g ! j)) of
                          None \<Rightarrow> user_coll w
                        | Some u \<Rightarrow> (user_coll w)(jr_userId (joinRequests g ! j) \<mapsto> u\<lparr>groups := groups u @ [gid]\<rparr>))
                  else user_coll w)\<rparr>))"
  using assms
  by (simp add: approveJoinRequest_def save_group_def push_user_group_def Let_def split: option.splits)

lemma decline_result:
  assumes g: "group_coll w gid = Some g" and own: "owner g = uid"
    and j: "findIndex (\<lambda>r. jr_id r = rid) (joinRequests g) = Some j"
  shows "declineJoinRequest e w gid uid rid =
     (if status (joinRequests g ! j) \<noteq> Pending then (Inl RequestAlreadyProcessed, w)
      else if \<not> write_ok e 0 then (Inl ServerError, w)
      else (Inr (),
            w\<lparr>group_coll := (group_coll w)(gid \<mapsto>
                 g\<lparr>joinRequests := (joinRequests g)[j := (joinRequests g ! j)\<lparr>status := Declined\<rparr>],
                    updatedAt := now e\<rparr>)\<rparr>))"
  using assms
  by (simp add: declineJoinRequest_def save_group_def Let_def)

text \<open>
  C4. Let the owner address the join request with id \<open>rid\<close> of a stored group, found at
  position \<open>j\<close>. Every request of the group that is approved or declined stays as it is
  through any sequence of membership requests. Approve and decline answer
  \<open>RequestAlreadyProcessed\<close> when the status is not pending. On a pending request,
  approve answers \<open>GroupFull\<close> when the members have reached \<open>maxMembers\<close> at that
  moment, and otherwise sets the status to approved and appends the requestor to the
  members; decline sets the status to declined and leaves the members, the other
  requests, the other groups, the users and the messages as they are (a group save
  stamps \<open>updatedAt\<close>).
\<close>

theorem join_request_lifecycle:
  assumes g: "group_coll w gid = Some g" and fresh: "gid < next_oid w"
    and own: "owner g = uid"
    and j: "findIndex (\<lambda>r. jr_id r = rid) (joinRequests g) = Some j"
  shows "(\<forall>i < length (joinRequests g). status (joinRequests g ! i) \<noteq> Pending \<longrightarrow>
            (\<forall>rs. \<exists>g'. group_coll (run w rs) gid = Some g' \<and> i < length (joinRequests g') \<and>
                     joinRequests g' ! i = joinRequests g ! i)) \<and>
         (status (joinRequests g ! j) \<noteq> Pending \<longrightarrow>
            approveJoinRequest e w gid uid rid = (Inl RequestAlreadyProcessed, w) \<and>
            declineJoinRequest e w gid uid rid = (Inl RequestAlreadyProcessed, w)) \<and>
         (status (joinRequests g ! j) = Pending \<longrightarrow>
            (\<forall>m. maxMembers g = Some m \<and> 2 \<le> m \<and> m \<le> of_nat (length (members g)) \<longrightarrow>
               approveJoinRequest e w gid uid rid = (Inl GroupFull, w)) \<and>
            (\<not> group_full g \<and> write_ok e 0 \<and> write_ok e 1 \<longrightarrow>
               fst (approveJoinRequest e w gid uid rid) = Inr () \<and>
               group_coll (snd (approveJoinRequest e w gid uid rid)) gid =
                 Some (g\<lparr>joinRequests := (joinRequests g)[j := (joinRequests g ! j)\<lparr>status := Approved\<rparr>],
                         members := members g @ [jr_userId (joinRequests g ! j)],
                         updatedAt := now e\<rparr>)) \<and>
            (write_ok e 0 \<longrightarrow>
               declineJoinRequest e w gid uid rid =
                 (Inr (), w\<lparr>group_coll := (group_coll w)(gid \<mapsto>
                    g\<lparr>joinRequests := (joinRequests g)[j := (joinRequests g ! j)\<lparr>status := Declined\<rparr>],
                       updatedAt := now e\<rparr>)\<rparr>)))"
proof (intro conjI allI impI)
  fix i rs
  assume i: "i < length (joinRequests g)" and st: "status (joinRequests g ! i) \<noteq> Pending"
  have "has_request w gid i (joinRequests g ! i)"
    using g fresh i by (simp add: has_request_def)
  then have "has_request (run w rs) gid i (joinRequests g ! i)"
    using st by (rule run_keeps)
  then show "\<exists>g'. group_coll (run w rs) gid = Some g' \<and> i < length (joinRequests g') \<and>
                     joinRequests g' ! i = joinRequests g ! i"
    by (auto simp: has_request_def)
next
  assume "status (joinRequests g ! j) \<noteq> Pending"
  then show "approveJoinRequest e w gid uid rid = (Inl RequestAlreadyProcessed, w)"
    by (simp add: approve_result[OF g own j])
next
  assume "status (joinRequests g ! j) \<noteq> Pending"
  then show "declineJoinRequest e w gid uid rid = (Inl RequestAlreadyProcessed, w)"
    by (simp add: decline_result[OF g own j])
next
  fix m
  assume "status (joinRequests g ! j) = Pending"
    and "maxMembers g = Some m \<and> 2 \<le> m \<and> m \<le> of_nat (length (members g))"
  then show "approveJoinRequest e w gid uid rid = (Inl GroupFull, w)"
    by (simp add: approve_result[OF g own j] group_full_def)
next
  assume "status (joinRequests g ! j) = Pending"
    and "\<not> group_full g \<and> write_ok e 0 \<and> write_ok e 1"
  then show "fst (approveJoinRequest e w gid uid rid) = Inr ()"
    by (simp add: approve_result[OF g own j])
next
  assume "status (joinRequests g ! j) = Pending"
    and "\<not> group_full g \<and> write_ok e 0 \<and> write_ok e 1"
  then show "group_coll (snd (approveJoinRequest e w gid uid rid)) gid =
                 Some (g\<lparr>joinRequests := (joinRequests g)[j := (joinRequests g ! j)\<lparr>status := Approved\<rparr>],
                         members := members g @ [jr_userId (joinRequests g ! j)],
                         updatedAt := now e\<rparr>)"
    by (simp add: approve_result[OF g own j])
next
  assume "status (joinRequests g ! j) = Pending" and "write_ok e 0"
  then show "declineJoinRequest e w gid uid rid =
                 (Inr (), w\<lparr>group_coll := (group_coll w)(gid \<mapsto>
                    g\<lparr>joinRequests := (joinRequests g)[j := (joinRequests g ! j)\<lparr>status := Declined\<rparr>],
                       updatedAt := now e\<rparr>)\<rparr>)"
    by (simp add: decline_result[OF g own j])
qed

theorem join_request_lifecycle_witness:
  "group_coll world_alpha 10 = Some alpha \<and> 10 < next_oid world_alpha \<and> owner alpha = 1 \<and>
   findIndex (\<lambda>r. jr_id r = 11) (joinRequests alpha) = Some 0 \<and>
   status (joinRequests alpha ! 0) = Approved \<and>
   approveJoinRequest (env_at 9) world_alpha 10 1 11 = (Inl RequestAlreadyProcessed, world_alpha) \<and>
   declineJoinRequest (env_at 9) world_alpha 10 1 11 = (Inl RequestAlreadyProcessed, world_alpha) \<and>
   map_option (\<lambda>g. status (joinRequests g ! 0))
     (group_coll (run world_alpha [(env_at 9, DeclineJoinRequest 10 1 11), (env_at 10, LeaveGroup (Spelling 10 0) 2)]) 10)
     = Some Approved \<and>
   group_coll world_pending 10 = Some alpha_pending \<and> 10 < next_oid world_pending \<and>
   owner alpha_pending = 1 \<and>
   findIndex (\<lambda>r. jr_id r = 11) (joinRequests alpha_pending) = Some 0 \<and>
   status (joinRequests alpha_pending ! 0) = Pending \<and>
   fst (approveJoinRequest (env_at 6) world_pending 10 1 11) = Inr () \<and>
   map_option members (group_coll (snd (approveJoinRequest (env_at 6) world_pending 10 1 11)) 10)
     = Some [1, 2] \<and>
   map_option (\<lambda>g. map status (joinRequests g))
     (group_coll (snd (approveJoinRequest (env_at 6) world_pending 10 1 11)) 10) = Some [Approved] \<and>
   map_option (\<lambda>g. (members g, map status (joinRequests g)))
     (group_coll (snd (declineJoinRequest (env_at 6) world_pending 10 1 11)) 10)
     = Some ([1], [Declined])"
proof -
  have a1: "group_coll world_alpha 10 = Some alpha" and a2: "10 < next_oid world_alpha"
    by (simp_all add: world_alpha_def)
  have a3: "owner alpha = 1"
    and a4: "findIndex (\<lambda>r. jr_id r = 11) (joinRequests alpha) = Some 0"
    and a5: "status (joinRequests alpha ! 0) = Approved"
    and a6: "0 < length (joinRequests alpha)"
    by (simp_all add: alpha_def)
  note A = join_request_lifecycle[OF a1 a2 a3 a4, of "env_at 9"]
  have a7: "approveJoinRequest (env_at 9) world_alpha 10 1 11 = (Inl RequestAlreadyProcessed, world_alpha)"
    and a8: "declineJoinRequest (env_at 9) world_alpha 10 1 11 = (Inl RequestAlreadyProcessed, world_alpha)"
    using A a5 by simp_all
  have np: "status (joinRequests alpha ! 0) \<noteq> Pending"
    using a5 by simp
  have "\<exists>g'. group_coll (run world_alpha [(env_at 9, DeclineJoinRequest 10 1 11), (env_at 10, LeaveGroup (Spelling 10 0) 2)]) 10 = Some g' \<and>
      0 < length (joinRequests g') \<and> joinRequests g' ! 0 = joinRequests alpha ! 0"
    by (rule A[THEN conjunct1, rule_format, OF a6 np])
  then obtain g' where
    "group_coll (run world_alpha [(env_at 9, DeclineJoinRequest 10 1 11), (env_at 10, LeaveGroup (Spelling 10 0) 2)]) 10 = Some g'"
    and "joinRequests g' ! 0 = joinRequests alpha ! 0"
    by blast
  then have a9: "map_option (\<lambda>g. status (joinRequests g ! 0))
     (group_coll (run world_alpha [(env_at 9, DeclineJoinRequest 10 1 11), (env_at 10, LeaveGroup (Spelling 10 0) 2)]) 10)
     = Some Approved"
    using a5 by simp
  have p1: "group_coll world_pending 10 = Some alpha_pending" and p2: "10 < next_oid world_pending"
    by (simp_all add: world_pending_def)
  have p3: "owner alpha_pending = 1"
    and p4: "findIndex (\<lambda>r. jr_id r = 11) (joinRequests alpha_pending) = Some 0"
    and p5: "status (joinRequests alpha_pending ! 0) = Pending"
    and p6: "\<not> group_full alpha_pending"
    by (simp_all add: alpha_pending_def alpha_def group_full_def)
  have p7: "write_ok (env_at 6) 0" "write_ok (env_at 6) 1"
    by (simp_all add: env_at_def)
  note P = join_request_lifecycle[OF p1 p2 p3 p4, of "env_at 6"]
  have p8: "fst (approveJoinRequest (env_at 6) world_pending 10 1 11) = Inr ()"
    using P p5 p6 p7 by simp
  have p9: "map_option members (group_coll (snd (approveJoinRequest (env_at 6) world_pending 10 1 11)) 10)
     = Some [1, 2]"
    "map_option (\<lambda>g. map status (joinRequests g))
     (group_coll (snd (approveJoinRequest (env_at 6) world_pending 10 1 11)) 10) = Some [Approved]"
    using P p5 p6 p7 by (simp_all add: alpha_pending_def alpha_def)
  have p10: "map_option (\<lambda>g. (members g, map status (joinRequests g)))
     (group_coll (snd (declineJoinRequest (env_at 6) world_pending 10 1 11)) 10)
     = Some ([1], [Declined])"
    using P p5 p7 by (simp add: alpha_pending_def alpha_def)
  from a1 a2 a3 a4 a5 a7 a8 a9 p1 p2 p3 p4 p5 p8 p9 p10 show ?thesis by simp
qed

section \<open>The cooldown after leaving a private group\<close>

lemma hours_ge:
  "(of_int d :: rat) / (1000 * 60 * 60) \<ge> 48 \<longleftrightarrow> d \<ge> 48 * 60 * 60 * 1000"
proof -
  have "(48::rat) \<le> of_int d / (1000 * 60 * 60) \<longleftrightarrow> (of_int (172800000::int) :: rat) \<le> of_int d"
    by (simp add: pos_le_divide_eq)
  also have "\<dots> \<longleftrightarrow> 172800000 \<le> d"
    by (rule of_int_le_iff)
  finally show ?thesis by simp
qed

lemma find_SomeD: "find P xs = Some x \<Longrightarrow> x \<in> set xs \<and> P x"
  by (induction xs) (auto split: if_splits)

lemma canRejoin_iff:
  "canRejoinPrivateGroup e u t \<longleftrightarrow>
     (case find (\<lambda>lg. oid_toString (lg_groupId lg) = t) (leftGroups u) of
        None \<Rightarrow> True
      | Some lg \<Rightarrow> now e - leftAt lg \<ge> 48 * 60 * 60 * 1000)"
  by (simp add: canRejoinPrivateGroup_def Let_def hours_ge del: of_int_diff split: option.splits)

lemma update_first_key:
  fixes lgs :: "left_group list"
  assumes "distinct (map lg_groupId lgs)"
    and "findIndex (\<lambda>lg. lg_groupId lg = gid) lgs = Some i"
  shows "lgs[i := (lgs ! i)\<lparr>leftAt := t\<rparr>] =
         map (\<lambda>lg. if lg_groupId lg = gid then lg\<lparr>leftAt := t\<rparr> else lg) lgs"
  using assms
proof (induction lgs arbitrary: i)
  case Nil
  then show ?case by simp
next
  case (Cons a lgs)
  show ?case
  proof (cases "lg_groupId a = gid")
    case True
    then have i: "i = 0" using Cons.prems(2) by simp
    have "\<forall>lg\<in>set lgs. lg_groupId lg \<noteq> gid"
      using Cons.prems(1) True by (auto intro: rev_image_eqI)
    then have "map (\<lambda>lg. if lg_groupId lg = gid then lg\<lparr>leftAt := t\<rparr> else lg) lgs = lgs"
      by (simp add: map_idI)
    then show ?thesis using True i by simp
  next
    case False
    then obtain j where j: "findIndex (\<lambda>lg. lg_groupId lg = gid) lgs = Some j" and i: "i = Suc j"
      using Cons.prems(2) by auto
    have "lgs[j := (lgs ! j)\<lparr>leftAt := t\<rparr>] =
          map (\<lambda>lg. if lg_groupId lg = gid then lg\<lparr>leftAt := t\<rparr> else lg) lgs"
      using Cons.IH[OF _ j] Cons.prems(1) by simp
    then show ?thesis using False i by simp
  qed
qed

text \<open>
  Leaving through the group id in the \<open>toString()\<close> form: when the user holds a record for
  the group, its \<open>leftAt\<close> is overwritten and nothing else changes; when the user holds
  none, one is appended; in both cases no group gets a second record.
\<close>

lemma record_leave_again:
  assumes "distinct (map lg_groupId lgs)" and "gid \<in> lg_groupId ` set lgs"
  shows "record_leave e (oid_toString gid) gid lgs =
         map (\<lambda>lg. if lg_groupId lg = gid then lg\<lparr>leftAt := now e\<rparr> else lg) lgs"
proof -
  from assms(2) obtain i where i: "findIndex (\<lambda>lg. lg_groupId lg = gid) lgs = Some i"
    by (cases "findIndex (\<lambda>lg. lg_groupId lg = gid) lgs") (auto simp: findIndex_None)
  then show ?thesis
    using update_first_key[OF assms(1) i, of "now e"]
    by (simp add: record_leave_def oid_toString_eq)
qed

lemma record_leave_first:
  assumes "gid \<notin> lg_groupId ` set lgs"
  shows "record_leave e (oid_toString gid) gid lgs = lgs @ [\<lparr>lg_groupId = gid, leftAt = now e\<rparr>]"
proof -
  have "findIndex (\<lambda>lg. lg_groupId lg = gid) lgs = None"
    using assms by (auto simp: findIndex_None)
  then show ?thesis by (simp add: record_leave_def oid_toString_eq)
qed

lemma record_leave_distinct:
  assumes "distinct (map lg_groupId lgs)"
  shows "distinct (map lg_groupId (record_leave e (oid_toString gid) gid lgs))"
proof (cases "gid \<in> lg_groupId ` set lgs")
  case True
  have "map lg_groupId (map (\<lambda>lg. if lg_groupId lg = gid then lg\<lparr>leftAt := now e\<rparr> else lg) lgs) =
        map lg_groupId lgs"
    by (induction lgs) auto
  then have "map lg_groupId (record_leave e (oid_toString gid) gid lgs) = map lg_groupId lgs"
    by (simp only: record_leave_again[OF assms True])
  then show ?thesis using assms by (simp only:)
next
  case False
  then show ?thesis using assms by (simp add: record_leave_first)
qed

lemma distinct_keys_filter:
  "distinct (map f xs) \<Longrightarrow> length (filter (\<lambda>x. f x = k) xs) \<le> 1"
  by (induction xs) (auto simp: filter_empty_conv intro: rev_image_eqI)

lemma createGroup_ledger: "ledger_ok w \<Longrightarrow> ledger_ok (snd (createGroup e w uid nm ty maxM))"
  by (auto simp: createGroup_def save_group_def push_user_group_def Let_def ledger_ok_def
      split: option.splits if_splits)

lemma joinGroup_ledger: "ledger_ok w \<Longrightarrow> ledger_ok (snd (joinGroup e w group_id uid))"
  by (auto simp: joinGroup_def save_group_def save_user_def Let_def ledger_ok_def
      split: option.splits if_splits)

lemma leaveGroup_ledger:
  "ledger_ok w \<Longrightarrow> ledger_ok (snd (leaveGroup e w (oid_toString gid) uid))"
  by (auto simp: leaveGroup_def save_group_def save_user_def Let_def ledger_ok_def
      cast_toString record_leave_distinct split: option.splits if_splits)

lemma transferOwnership_ledger: "ledger_ok w \<Longrightarrow> ledger_ok (snd (transferOwnership e w gid uid n))"
  by (auto simp: transferOwnership_def save_group_def Let_def ledger_ok_def
      split: option.splits if_splits)

lemma banishUser_ledger: "ledger_ok w \<Longrightarrow> ledger_ok (snd (banishUser e w group_id uid t))"
  by (auto simp: banishUser_def save_group_def save_user_def Let_def ledger_ok_def
      split: option.splits if_splits)

lemma approveJoinRequest_ledger: "ledger_ok w \<Longrightarrow> ledger_ok (snd (approveJoinRequest e w gid uid r))"
  by (auto simp: approveJoinRequest_def save_group_def push_user_group_def Let_def ledger_ok_def
      split: option.splits if_splits)

lemma declineJoinRequest_ledger: "ledger_ok w \<Longrightarrow> ledger_ok (snd (declineJoinRequest e w gid uid r))"
  by (auto simp: declineJoinRequest_def save_group_def Let_def ledger_ok_def
      split: option.splits if_splits)

lemma serve_ledger:
  assumes "ledger_ok w" and "lower_case_leave rq"
  shows "ledger_ok (snd (serve e w rq))"
proof (cases rq)
  case (CreateGroup uid nm ty maxM)
  then show ?thesis
    using createGroup_ledger[OF assms(1), of e uid nm ty maxM] by (simp add: split_beta)
next
  case (LeaveGroup group_id uid)
  show ?thesis
  proof (cases group_id)
    case (Spelling i k)
    then have "group_id = oid_toString i"
      using assms(2) LeaveGroup by (simp add: oid_toString_def)
    then show ?thesis
      using LeaveGroup leaveGroup_ledger[OF assms(1), of e i uid] by simp
  next
    case NoId
    then show ?thesis using LeaveGroup assms(1) by (simp add: leaveGroup_def)
  qed
qed (simp_all add: assms joinGroup_ledger transferOwnership_ledger
      banishUser_ledger approveJoinRequest_ledger declineJoinRequest_ledger)

text \<open>
  Through any sequence of membership requests whose leave requests carry the group id
  in the \<open>toString()\<close> form, every user holds at most one record per group.
\<close>

lemma run_ledger:
  "ledger_ok w \<Longrightarrow> \<forall>(e, rq)\<in>set rs. lower_case_leave rq \<Longrightarrow> ledger_ok (run w rs)"
  by (induction rs arbitrary: w) (auto simp: serve_ledger)

lemma one_record:
  assumes "ledger_ok w" and "\<forall>(e, rq)\<in>set rs. lower_case_leave rq"
    and "user_coll (run w rs) uid = Some u"
  shows "length (filter (\<lambda>lg. lg_groupId lg = gid) (leftGroups u)) \<le> 1"
proof -
  have "ledger_ok (run w rs)" using assms(1,2) by (rule run_ledger)
  then have "distinct (map lg_groupId (leftGroups u))"
    using assms(3) by (auto simp: ledger_ok_def)
  then show ?thesis by (rule distinct_keys_filter)
qed

text \<open>
  For the group id in the \<open>toString()\<close> form, \<open>canRejoinPrivateGroup\<close> is true exactly when
  the user holds no record for the group, or 48 hours have passed since the \<open>leftAt\<close> of the
  record that \<open>find\<close> gives.
\<close>

lemma canRejoin_lower_case:
  "canRejoinPrivateGroup e u (oid_toString gid) \<longleftrightarrow>
     (\<forall>lg\<in>set (leftGroups u). lg_groupId lg \<noteq> gid) \<or>
     (\<exists>lg. find (\<lambda>lg. lg_groupId lg = gid) (leftGroups u) = Some lg \<and>
           now e - leftAt lg \<ge> 48 * 60 * 60 * 1000)"
  by (auto simp: canRejoin_iff oid_toString_eq find_None_iff dest: find_SomeD split: option.splits)

text \<open>
  A join request to a private group that passes the membership, ban and capacity checks
  answers \<open>CooldownActive\<close> exactly when \<open>canRejoinPrivateGroup\<close>, asked with the text of the
  URL, is false.
\<close>

lemma joinGroup_private_result:
  assumes "cast_oid group_id = Some gid"
    and "group_coll w gid = Some g" and "gtype g = Private"
    and "\<not> isMember g (oid_toString uid)" and "\<not> isBanned g uid" and "\<not> group_full g"
    and "user_coll w uid = Some u"
  shows "joinGroup e w group_id uid =
     (if \<not> canRejoinPrivateGroup e u group_id then (Inl CooldownActive, w)
      else if hasPendingRequest g uid then (Inl RequestPending, w)
      else if \<not> write_ok e 0 then (Inl ServerError, w)
      else (Inr (), w\<lparr>group_coll := (group_coll w)(gid \<mapsto>
              g\<lparr>joinRequests := joinRequests g @
                   [\<lparr>jr_id = next_oid w, jr_userId = uid, requestedAt = now e, status = Pending\<rparr>],
                 updatedAt := now e\<rparr>),
            next_oid := Suc (next_oid w)\<rparr>))"
  using assms by (simp add: joinGroup_def save_group_def Let_def)

text \<open>
  C6. The routes look the \<open>leftGroups\<close> record up by comparing \<open>lg.groupId.toString()\<close> with
  the text of the URL, while \<open>findById\<close> casts that text. User 2 left \<open>Alpha\<close> (id 10) at
  time 100. One millisecond later a join request through the \<open>toString()\<close> form of the id
  answers \<open>CooldownActive\<close>; through another spelling of the same id it finds the group, finds
  no record, and stores a pending request. And when user 2, a member again, leaves through
  the other spelling, a second record for group 10 is appended, where the \<open>toString()\<close> form
  overwrites the first.
\<close>

theorem cooldown_other_spelling:
  "cast_oid (Spelling 10 0) = Some 10 \<and> cast_oid (Spelling 10 1) = Some 10 \<and>
   map_option leftGroups (user_coll world_left 2) = Some [\<lparr>lg_groupId = 10, leftAt = 100\<rparr>] \<and>
   fst (joinGroup (env_at 101) world_left (Spelling 10 0) 2) = Inl CooldownActive \<and>
   fst (joinGroup (env_at 101) world_left (Spelling 10 1) 2) = Inr () \<and>
   map_option (\<lambda>g. map (\<lambda>r. (jr_userId r, status r)) (joinRequests g))
     (group_coll (snd (joinGroup (env_at 101) world_left (Spelling 10 1) 2)) 10) =
     Some [(2, Approved), (2, Pending)] \<and>
   map_option leftGroups (user_coll (snd (leaveGroup (env_at 500) world_back (Spelling 10 0) 2)) 2) =
     Some [\<lparr>lg_groupId = 10, leftAt = 500\<rparr>] \<and>
   map_option leftGroups (user_coll (snd (leaveGroup (env_at 500) world_back (Spelling 10 1) 2)) 2) =
     Some [\<lparr>lg_groupId = 10, leftAt = 100\<rparr>, \<lparr>lg_groupId = 10, leftAt = 500\<rparr>] \<and>
   record_leave (env_at 500) (Spelling 10 0) 10
       [\<lparr>lg_groupId = 9, leftAt = 50\<rparr>, \<lparr>lg_groupId = 10, leftAt = 100\<rparr>] =
     [\<lparr>lg_groupId = 9, leftAt = 50\<rparr>, \<lparr>lg_groupId = 10, leftAt = 500\<rparr>] \<and>
   record_leave (env_at 500) (Spelling 10 1) 10
       [\<lparr>lg_groupId = 9, leftAt = 50\<rparr>, \<lparr>lg_groupId = 10, leftAt = 100\<rparr>] =
     [\<lparr>lg_groupId = 9, leftAt = 50\<rparr>, \<lparr>lg_groupId = 10, leftAt = 100\<rparr>,
      \<lparr>lg_groupId = 10, leftAt = 500\<rparr>]"
  by (simp add: world_left_def world_back_def alpha_left_def alpha_def new_user_def env_at_def
      route_defs)

section \<open>Listing and searching messages\<close>

lemma desc_sorted:
  "sorted_wrt (\<lambda>a b. timestamp b \<le> timestamp a) (sort_key (\<lambda>m. - timestamp m) xs)"
  using sorted_sort_key[of "\<lambda>m. - timestamp m" xs] by (simp add: sorted_map)

lemma find_sorted_limit_props:
  fixes q n ms
  defines "xs \<equiv> sort_key (\<lambda>m. - timestamp m) (filter q ms)"
  shows "0 < n \<Longrightarrow> find_sorted_limit q n ms = take n xs"
    and "mset (rev (take n xs) @ drop n xs) = mset (filter q ms)"
    and "length (take n xs) = min n (length (filter q ms))"
    and "sorted (map timestamp (rev (take n xs)))"
    and "\<forall>a\<in>set (take n xs). \<forall>b\<in>set (drop n xs). timestamp b \<le> timestamp a"
    and "set (take n xs) \<subseteq> {m \<in> set ms. q m}"
    and "set (find_sorted_limit q n ms) \<subseteq> {m \<in> set ms. q m}"
proof -
  show "0 < n \<Longrightarrow> find_sorted_limit q n ms = take n xs"
    by (simp add: find_sorted_limit_def xs_def)
  have "mset (rev (take n xs) @ drop n xs) = mset (take n xs) + mset (drop n xs)"
    by simp
  also have "\<dots> = mset (take n xs @ drop n xs)"
    by (simp only: mset_append)
  also have "\<dots> = mset xs"
    by (simp only: append_take_drop_id)
  also have "\<dots> = mset (filter q ms)"
    by (simp add: xs_def)
  finally show "mset (rev (take n xs) @ drop n xs) = mset (filter q ms)" .
  show "length (take n xs) = min n (length (filter q ms))"
    by (simp add: xs_def min.commute)
  have d: "sorted_wrt (\<lambda>a b. timestamp b \<le> timestamp a) xs"
    unfolding xs_def by (rule desc_sorted)
  then have "sorted_wrt (\<lambda>a b. timestamp b \<le> timestamp a) (take n xs)"
    by (rule sorted_wrt_take)
  then show "sorted (map timestamp (rev (take n xs)))"
    by (simp add: sorted_map sorted_wrt_rev)
  from d have "sorted_wrt (\<lambda>a b. timestamp b \<le> timestamp a) (take n xs @ drop n xs)"
    by simp
  then show "\<forall>a\<in>set (take n xs). \<forall>b\<in>set (drop n xs). timestamp b \<le> timestamp a"
    unfolding sorted_wrt_append by blast
  have t: "set (take n xs) \<subseteq> set xs" by (rule set_take_subset)
  then show "set (take n xs) \<subseteq> {m \<in> set ms. q m}"
    by (auto simp: xs_def)
  have "set (find_sorted_limit q n ms) \<subseteq> set xs"
    using t by (simp add: find_sorted_limit_def xs_def Let_def)
  then show "set (find_sorted_limit q n ms) \<subseteq> {m \<in> set ms. q m}"
    by (auto simp: xs_def)
qed

text \<open>
  Listing with a positive \<open>limit\<close> (50 when none is given): the answer is the list of views
  of messages \<open>ms\<close> such that every one is a stored message of the group that is not
  deleted and whose timestamp is before \<open>before\<close> when that is given, and otherwise after
  \<open>after\<close> when that is given; they are the \<open>limit\<close> newest of the matching messages (all
  of them when there are fewer), every other matching message being at most as new; they
  are in ascending order of timestamp; and \<open>hasMore\<close> is true exactly when their number
  is \<open>limit\<close>.
\<close>

lemma listMessages_page:
  assumes g: "group_coll w gid = Some g" and mem: "isMember g (oid_toString uid)"
    and lmt: "lmt = (case limit of None \<Rightarrow> 50 | Some n \<Rightarrow> n)" and pos: "0 < lmt"
  shows "\<exists>ms rest.
     listMessages C w gid uid limit before after = Inr (map (view C) ms, length ms = lmt) \<and>
     mset (ms @ rest) = mset (filter (list_query gid before after) (message_coll w)) \<and>
     length ms = min lmt (length (filter (list_query gid before after) (message_coll w))) \<and>
     sorted (map timestamp ms) \<and>
     (\<forall>a\<in>set ms. \<forall>b\<in>set rest. timestamp b \<le> timestamp a) \<and>
     (\<forall>m\<in>set ms. m \<in> set (message_coll w) \<and> groupId m = gid \<and> \<not> deleted m \<and>
        (case before of
           Some b \<Rightarrow> timestamp m < b
         | None \<Rightarrow> (case after of Some a \<Rightarrow> timestamp m > a | None \<Rightarrow> True)))"
proof -
  let ?q = "list_query gid before after"
  let ?xs = "sort_key (\<lambda>m. - timestamp m) (filter ?q (message_coll w))"
  let ?ms = "rev (take lmt ?xs)" and ?rest = "drop lmt ?xs"
  note P = find_sorted_limit_props[where q = ?q and n = lmt and ms = "message_coll w"]
  have "listMessages C w gid uid limit before after = Inr (map (view C) ?ms, length ?ms = lmt)"
    using g mem lmt pos by (simp add: listMessages_def Let_def find_sorted_limit_def rev_map)
  moreover have "mset (?ms @ ?rest) = mset (filter ?q (message_coll w))"
    by (rule P(2))
  moreover have "length ?ms = min lmt (length (filter ?q (message_coll w)))"
    using P(3) by simp
  moreover have "sorted (map timestamp ?ms)"
    by (rule P(4))
  moreover have "\<forall>a\<in>set ?ms. \<forall>b\<in>set ?rest. timestamp b \<le> timestamp a"
    using P(5) by simp
  moreover have "\<forall>m\<in>set ?ms. m \<in> set (message_coll w) \<and> groupId m = gid \<and> \<not> deleted m \<and>
        (case before of
           Some b \<Rightarrow> timestamp m < b
         | None \<Rightarrow> (case after of Some a \<Rightarrow> timestamp m > a | None \<Rightarrow> True))"
    using P(6) by (auto simp: list_query_def)
  ultimately show ?thesis by blast
qed

lemmas world_msgs_defs = world_msgs_def world_chat_def chat_def msg0_def msg1_def msg2_def
  msg3_def toy_crypto_def

lemma listMessages_page_example:
  "group_coll world_msgs 10 = Some chat \<and> isMember chat (oid_toString 1) \<and>
   (2::nat) = (case Some 2 of None \<Rightarrow> 50 | Some n \<Rightarrow> n) \<and> (0::nat) < 2 \<and>
   listMessages toy_crypto world_msgs 10 1 (Some 2) None None =
     Inr ([view toy_crypto msg2, view toy_crypto msg1], True) \<and>
   map timestamp [msg2, msg1] = [2000, 3000] \<and>
   (\<exists>ms rest. listMessages toy_crypto world_msgs 10 1 (Some 2) None None =
        Inr (map (view toy_crypto) ms, length ms = 2) \<and>
      mset (ms @ rest) = mset (filter (list_query 10 None None) (message_coll world_msgs)) \<and>
      sorted (map timestamp ms))"
proof -
  have h1: "group_coll world_msgs 10 = Some chat"
    by (simp add: world_msgs_def world_chat_def)
  have h2: "isMember chat (oid_toString 1)"
    by (simp add: chat_def isMember_token)
  have h3: "(2::nat) = (case Some 2 of None \<Rightarrow> 50 | Some n \<Rightarrow> n)" and h4: "(0::nat) < 2"
    by simp_all
  have e: "listMessages toy_crypto world_msgs 10 1 (Some 2) None None =
     Inr ([view toy_crypto msg2, view toy_crypto msg1], True)"
    by (simp add: listMessages_def find_sorted_limit_def list_query_def isMember_def
        oid_toString_def Let_def world_msgs_defs)
  have t: "map timestamp [msg2, msg1] = [2000, 3000]"
    by (simp add: msg0_def msg1_def msg2_def)
  from listMessages_page[OF h1 h2 h3 h4, of toy_crypto None None]
  have "\<exists>ms rest. listMessages toy_crypto world_msgs 10 1 (Some 2) None None =
        Inr (map (view toy_crypto) ms, length ms = 2) \<and>
      mset (ms @ rest) = mset (filter (list_query 10 None None) (message_coll world_msgs)) \<and>
      sorted (map timestamp ms)"
    by blast
  with h1 h2 h3 h4 e t show ?thesis by blast
qed

text \<open>
  C7. The route hands \<open>parseInt(limit)\<close> to the query as it is, and the engine takes a
  limit of 0 as no limit. With \<open>limit = 0\<close> a member of \<open>Chat\<close> is answered all three
  messages that are not deleted, in ascending order, with \<open>hasMore\<close> false: more than the
  newest \<open>limit\<close> messages, and more than the \<open>limit\<close> that the route documents as the
  greatest number of messages to return.
\<close>

theorem listMessages_limit_zero:
  "listMessages toy_crypto world_msgs 10 1 (Some 0) None None =
     Inr ([view toy_crypto msg0, view toy_crypto msg2, view toy_crypto msg1], False) \<and>
   map timestamp [msg0, msg2, msg1] = [1000, 2000, 3000] \<and>
   (0::nat) < length [view toy_crypto msg0, view toy_crypto msg2, view toy_crypto msg1]"
  by (simp add: listMessages_def find_sorted_limit_def list_query_def isMember_def
      oid_toString_def Let_def world_msgs_defs)

text \<open>
  Searching with a positive \<open>limit\<close> (20 when none is given): the loop answers the first
  \<open>limit\<close> hits among the messages it is given, in their order; these are the 500 newest
  messages of the group that are not deleted, newest first, and a hit is a message whose
  decrypted content contains the query, letter case aside. So there are at most \<open>limit\<close>
  hits, none of them a deleted message.
\<close>

lemma search_loop_take:
  "0 < lmt \<Longrightarrow> length acc < lmt \<Longrightarrow>
   search_loop C t lmt ms acc =
     take lmt (acc @ map (\<lambda>m. hit m (getDecryptedContent C m))
       (filter (\<lambda>m. str_includes (toLowerCase (getDecryptedContent C m)) t) ms))"
proof (induction ms arbitrary: acc)
  case Nil
  then show ?case by simp
next
  case (Cons a ms)
  let ?h = "\<lambda>m. hit m (getDecryptedContent C m)"
  let ?p = "\<lambda>m. str_includes (toLowerCase (getDecryptedContent C m)) t"
  show ?case
  proof (cases "?p a")
    case False
    then show ?thesis using Cons by (simp add: Let_def)
  next
    case True
    show ?thesis
    proof (cases "lmt \<le> length (acc @ [?h a])")
      case full: True
      then have "length (acc @ [?h a]) = lmt" using Cons.prems(2) by simp
      moreover have "\<And>xs ys :: search_result list. length xs = lmt \<Longrightarrow> take lmt (xs @ ys) = xs"
        by simp
      ultimately have "take lmt ((acc @ [?h a]) @ map ?h (filter ?p ms)) = acc @ [?h a]"
        by blast
      then show ?thesis using True full by (simp add: Let_def)
    next
      case room: False
      then have "length (acc @ [?h a]) < lmt" by simp
      from Cons.IH[OF Cons.prems(1) this] show ?thesis
        using True room by (simp add: Let_def)
    qed
  qed
qed

lemma searchMessages_positive_limit:
  assumes g: "group_coll w gid = Some g" and mem: "isMember g (oid_toString uid)"
    and q: "\<not> blank q"
    and lmt: "lmt = (case limit of None \<Rightarrow> 20 | Some n \<Rightarrow> n)" and pos: "0 < lmt"
  shows "searchMessages C w gid uid q limit =
     Inr (take lmt (map (\<lambda>m. hit m (getDecryptedContent C m))
       (filter (\<lambda>m. str_includes (toLowerCase (getDecryptedContent C m)) (toLowerCase q))
          (take 500 (sort_key (\<lambda>m. - timestamp m)
             (filter (\<lambda>m. groupId m = gid \<and> \<not> deleted m) (message_coll w)))))))"
  using g mem q lmt pos search_loop_take[of lmt "[]" C "toLowerCase q"]
  by (simp add: searchMessages_def Let_def find_sorted_limit_def)

lemma search_loop_bound:
  "0 < lmt \<Longrightarrow> length acc < lmt \<Longrightarrow> length (search_loop C t lmt ms acc) \<le> lmt"
  by (induction ms arbitrary: acc) (auto simp: Let_def)

lemma search_loop_hits:
  "set (search_loop C t lmt ms acc) \<subseteq>
   set acc \<union> (\<lambda>m. hit m (getDecryptedContent C m)) `
     {m \<in> set ms. str_includes (toLowerCase (getDecryptedContent C m)) t}"
proof (induction ms arbitrary: acc)
  case Nil
  show ?case by simp
next
  case (Cons a ms)
  let ?H = "\<lambda>xs. (\<lambda>m. hit m (getDecryptedContent C m)) `
     {m \<in> set xs. str_includes (toLowerCase (getDecryptedContent C m)) t}"
  let ?acc' = "if str_includes (toLowerCase (getDecryptedContent C a)) t
               then acc @ [hit a (getDecryptedContent C a)] else acc"
  have "set (search_loop C t lmt (a # ms) acc) \<subseteq> set ?acc' \<union> set (search_loop C t lmt ms ?acc')"
    by (simp add: Let_def)
  moreover have "set (search_loop C t lmt ms ?acc') \<subseteq> set ?acc' \<union> ?H ms"
    by (rule Cons.IH)
  moreover have "set ?acc' \<subseteq> set acc \<union> ?H (a # ms)"
    by auto
  moreover have "?H ms \<subseteq> ?H (a # ms)"
    by auto
  ultimately show ?case by blast
qed

lemma searchMessages_bounded:
  assumes g: "group_coll w gid = Some g" and mem: "isMember g (oid_toString uid)"
    and q: "\<not> blank q"
    and lmt: "lmt = (case limit of None \<Rightarrow> 20 | Some n \<Rightarrow> n)" and pos: "0 < lmt"
  shows "\<exists>rs. searchMessages C w gid uid q limit = Inr rs \<and> length rs \<le> lmt \<and>
     (\<forall>r\<in>set rs. \<exists>m\<in>set (message_coll w). r = hit m (getDecryptedContent C m) \<and>
        groupId m = gid \<and> \<not> deleted m \<and>
        str_includes (toLowerCase (getDecryptedContent C m)) (toLowerCase q))"
proof -
  let ?q = "\<lambda>m. groupId m = gid \<and> \<not> deleted m"
  let ?ms = "find_sorted_limit ?q 500 (message_coll w)"
  let ?rs = "search_loop C (toLowerCase q) lmt ?ms []"
  have r: "searchMessages C w gid uid q limit = Inr ?rs"
    using g mem q lmt by (simp add: searchMessages_def Let_def)
  have b: "length ?rs \<le> lmt"
    using pos by (simp add: search_loop_bound)
  have s: "set ?ms \<subseteq> {m \<in> set (message_coll w). ?q m}"
    by (rule find_sorted_limit_props(7))
  have "\<forall>r\<in>set ?rs. \<exists>m\<in>set (message_coll w). r = hit m (getDecryptedContent C m) \<and>
        groupId m = gid \<and> \<not> deleted m \<and>
        str_includes (toLowerCase (getDecryptedContent C m)) (toLowerCase q)"
  proof
    fix r assume "r \<in> set ?rs"
    then obtain m where "m \<in> set ?ms" and "r = hit m (getDecryptedContent C m)"
      and "str_includes (toLowerCase (getDecryptedContent C m)) (toLowerCase q)"
      using search_loop_hits[of C "toLowerCase q" lmt ?ms "[]"] by auto
    with s show "\<exists>m\<in>set (message_coll w). r = hit m (getDecryptedContent C m) \<and>
        groupId m = gid \<and> \<not> deleted m \<and>
        str_includes (toLowerCase (getDecryptedContent C m)) (toLowerCase q)"
      by blast
  qed
  with r b show ?thesis by blast
qed

lemma toLowerCase_World: "toLowerCase ''World'' = ''world''" "toLowerCase ''WORLD'' = ''world''"
  by code_simp+

text \<open>
  C8. The loop tests the number of hits against \<open>limit\<close> only after it has looked at a
  message. With \<open>limit = 0\<close> and a newest message that matches, the search answers one
  hit, which is more than \<open>limit\<close>.
\<close>

theorem searchMessages_limit_zero:
  "searchMessages toy_crypto world_msgs 10 1 ''WORLD'' (Some 0) = Inr [hit msg1 ''World''] \<and>
   (0::nat) < length [hit msg1 ''World'']"
  by (simp add: searchMessages_def find_sorted_limit_def isMember_def oid_toString_def Let_def
      blank_def trim_def
      is_space_def toLowerCase_World str_includes_def getDecryptedContent_def
      decryptContent_def world_msgs_defs)

end
